theory Spec2Isabelle
  imports Complex_Main "HOL-Library.AList"
begin

section \<open>Python values and exceptions\<close>

text \<open>
  The exceptions the two source files can raise by themselves: a failed \<^verbatim>\<open>assert\<close>, a
  missing dictionary key, \<^verbatim>\<open>torch.cat\<close> on an empty list, a file that is not there, and the
  exit of \<^verbatim>\<open>argparse\<close> on a rejected command line (status 2).
\<close>

datatype error = AssertionError | KeyError | RuntimeError | FileNotFoundError | SystemExit int

text \<open>
  A statement either returns a value or raises; both leave a state behind (the state at the
  moment of the \<^verbatim>\<open>raise\<close>, in the second case).
\<close>

datatype ('a, 's) outcome = Return 'a 's | Raise error 's

fun state_of :: "('a, 's) outcome \<Rightarrow> 's" where
  "state_of (Return v s) = s"
| "state_of (Raise e s) = s"

fun returns :: "('a, 's) outcome \<Rightarrow> bool" where
  "returns (Return v s) = True"
| "returns (Raise e s) = False"

text \<open>Python's builtin \<^verbatim>\<open>sum\<close>: a left fold of \<^verbatim>\<open>+\<close> that starts from \<^verbatim>\<open>0\<close>.\<close>

definition py_sum :: "'a::{plus,zero} list \<Rightarrow> 'a" where
  "py_sum xs = foldl (+) 0 xs"

text \<open>\<^verbatim>\<open>k.startswith('_')\<close>\<close>

fun startswith_underscore :: "string \<Rightarrow> bool" where
  "startswith_underscore [] = False"
| "startswith_underscore (c # cs) = (c = CHR ''_'')"

section \<open>Batches\<close>

text \<open>
  A batch of the data loader is a dictionary from names to tensors; \<^verbatim>\<open>data[k]\<close> raises
  \<^verbatim>\<open>KeyError\<close> on a missing key. A list comprehension of lookups stops at the first one
  that raises.
\<close>

type_synonym 'x batch = "string \<Rightarrow> 'x option"

definition getitem :: "'x batch \<Rightarrow> string \<Rightarrow> error + 'x" where
  "getitem data k = (case data k of None \<Rightarrow> Inl KeyError | Some v \<Rightarrow> Inr v)"

fun getitems :: "'x batch \<Rightarrow> string list \<Rightarrow> error + 'x list" where
  "getitems data [] = Inr []"
| "getitems data (k # ks) =
     (case getitem data k of
        Inl e \<Rightarrow> Inl e
      | Inr v \<Rightarrow> (case getitems data ks of Inl e \<Rightarrow> Inl e | Inr vs \<Rightarrow> Inr (v # vs)))"

definition X_key :: "string \<Rightarrow> string" where
  "X_key input_type = ''X_'' @ input_type"

section \<open>The results dictionary\<close>

text \<open>
  Dictionaries that are written to the JSON file are association lists updated with
  \<^const>\<open>AList.update\<close>: a new key goes to the end, an old key keeps its place and
  takes the new value, as in a Python \<^verbatim>\<open>dict\<close>. The entry of one epoch is
  \<^verbatim>\<open>{'train': {}, 'valid': {}}\<close>; a value in it is a number or, for
  \<^verbatim>\<open>'reconstruction_loss'\<close>, a dictionary from input types to numbers.
\<close>

datatype 'f jval = Num 'f | Obj "(string \<times> 'f) list"

record 'f epoch_entry =
  train :: "(string \<times> 'f jval) list"
  valid :: "(string \<times> 'f jval) list"

record ('f, 'pv) results_dict =
  r_params :: "(string \<times> 'pv) list"
  history :: "(nat \<times> 'f epoch_entry) list"

text \<open>
  \<^verbatim>\<open>{input_type: loss for input_type, loss in zip(model.input_types_vae, losses)}\<close>
\<close>

definition dict_of_zip :: "string list \<Rightarrow> 'f list \<Rightarrow> (string \<times> 'f) list" where
  "dict_of_zip ks vs = foldl (\<lambda>d (k, v). AList.update k v d) [] (zip ks vs)"

text \<open>
  \<^verbatim>\<open>results['history'][epoch]['train'][k] = v\<close> and the same for \<^verbatim>\<open>'valid'\<close>:
  the lookup of \<^verbatim>\<open>epoch\<close> raises \<^verbatim>\<open>KeyError\<close> when the epoch has no entry.
\<close>

definition set_train :: "nat \<Rightarrow> string \<Rightarrow> 'f jval \<Rightarrow> ('f, 'pv) results_dict \<Rightarrow> error + ('f, 'pv) results_dict" where
  "set_train epoch k v res =
     (case map_of (history res) epoch of
        None \<Rightarrow> Inl KeyError
      | Some ent \<Rightarrow>
          Inr (res\<lparr>history := AList.update epoch (ent\<lparr>train := AList.update k v (train ent)\<rparr>) (history res)\<rparr>))"

definition set_valid :: "nat \<Rightarrow> string \<Rightarrow> 'f jval \<Rightarrow> ('f, 'pv) results_dict \<Rightarrow> error + ('f, 'pv) results_dict" where
  "set_valid epoch k v res =
     (case map_of (history res) epoch of
        None \<Rightarrow> Inl KeyError
      | Some ent \<Rightarrow>
          Inr (res\<lparr>history := AList.update epoch (ent\<lparr>valid := AList.update k v (valid ent)\<rparr>) (history res)\<rparr>))"

text \<open>Lines 71 to 75 of \<^verbatim>\<open>fit.py\<close>: the three assignments that end \<^verbatim>\<open>train_step\<close>.\<close>

definition log_train ::
  "string list \<Rightarrow> nat \<Rightarrow> 'f \<Rightarrow> 'f list \<Rightarrow> 'f \<Rightarrow> ('f, 'pv) results_dict \<Rightarrow> error + ('f, 'pv) results_dict" where
  "log_train input_types epoch kl_loss reconstruction_losses survival_loss res =
     (case set_train epoch ''kl_loss'' (Num kl_loss) res of
        Inl e \<Rightarrow> Inl e
      | Inr res1 \<Rightarrow>
     (case set_train epoch ''reconstruction_loss'' (Obj (dict_of_zip input_types reconstruction_losses)) res1 of
        Inl e \<Rightarrow> Inl e
      | Inr res2 \<Rightarrow> set_train epoch ''survival_loss'' (Num survival_loss) res2))"

text \<open>Lines 112 to 117: the four assignments that end \<^verbatim>\<open>valid_step\<close>.\<close>

definition log_valid ::
  "string list \<Rightarrow> nat \<Rightarrow> 'f \<Rightarrow> 'f list \<Rightarrow> 'f \<Rightarrow> 'f \<Rightarrow> ('f, 'pv) results_dict \<Rightarrow> error + ('f, 'pv) results_dict" where
  "log_valid input_types epoch kl_loss reconstruction_losses survival_loss metric res =
     (case set_valid epoch ''kl_loss'' (Num kl_loss) res of
        Inl e \<Rightarrow> Inl e
      | Inr res1 \<Rightarrow>
     (case set_valid epoch ''reconstruction_loss'' (Obj (dict_of_zip input_types reconstruction_losses)) res1 of
        Inl e \<Rightarrow> Inl e
      | Inr res2 \<Rightarrow>
     (case set_valid epoch ''survival_loss'' (Num survival_loss) res2 of
        Inl e \<Rightarrow> Inl e
      | Inr res3 \<Rightarrow> set_valid epoch ''metric'' (Num metric) res3)))"

section \<open>Collaborators\<close>

text \<open>
  What \<^verbatim>\<open>fit\<close> calls and does not define: the model (its two lists of input types and
  its forward pass), the three loss functions, tensor operations, automatic differentiation,
  the Adam optimizer and the concordance index. They are parameters of the development.
  Type \<open>'x\<close> is a data tensor, \<open>'t\<close> a scalar loss tensor, \<open>'f\<close> a Python number,
  \<open>'w\<close> the values of the model's parameters, \<open>'g\<close> a gradient for them, \<open>'o\<close> the
  optimizer's own state and \<open>'r\<close> the state of the random number generator.

  \<^item> \<open>forward w training r (inputs_vae, inputs_task)\<close> is \<^verbatim>\<open>model.forward\<close>: it reads the
    parameters and the mode, may draw random numbers, and returns
    \<^verbatim>\<open>(outputs, mu, logvar, riskpred)\<close>; it does not assign to the parameters.
  \<^item> \<open>backward t\<close> is the gradient that \<^verbatim>\<open>t.backward()\<close> adds to \<^verbatim>\<open>.grad\<close>.
  \<^item> \<open>isnan_any t\<close> is \<^verbatim>\<open>t.isnan().any().item()\<close> and \<open>item t\<close> is \<^verbatim>\<open>t.data.item()\<close>.
  \<^item> \<open>adam lr w\<close> is the optimizer \<^verbatim>\<open>torch.optim.Adam\<close> builds; \<open>optimizer_step\<close> is
    its \<^verbatim>\<open>step()\<close>, which reads \<^verbatim>\<open>.grad\<close> (\<open>None\<close> when it is not set).
  \<^item> \<open>cat\<close> is \<^verbatim>\<open>torch.cat\<close> on a list that is not empty.
\<close>

record ('x, 't, 'f, 'w, 'g, 'o, 'r) env =
  input_types_vae :: "string list"
  input_types_subtask :: "string list"
  forward :: "'w \<Rightarrow> bool \<Rightarrow> 'r \<Rightarrow> 'x list \<times> 'x list \<Rightarrow> ('x list \<times> 'x \<times> 'x \<times> 'x) \<times> 'r"
  flatten :: "'x \<Rightarrow> 'x"
  kl_loss_func :: "'x \<Rightarrow> 'x \<Rightarrow> 't"
  mse_loss :: "'x \<Rightarrow> 'x \<Rightarrow> 't"
  survival_loss_func :: "'x \<Rightarrow> 'x \<Rightarrow> 'x \<Rightarrow> 't"
  isnan_any :: "'t \<Rightarrow> bool"
  item :: "'t \<Rightarrow> 'f"
  backward :: "'t \<Rightarrow> 'g"
  adam :: "'f \<Rightarrow> 'w \<Rightarrow> 'o"
  optimizer_step :: "'o \<Rightarrow> 'w \<Rightarrow> 'g option \<Rightarrow> 'o \<times> 'w"
  cat :: "'x list \<Rightarrow> 'x"
  ConcordanceIndex :: "'x \<Rightarrow> 'x \<Rightarrow> 'x \<Rightarrow> 'f"

text \<open>\<^verbatim>\<open>torch.cat\<close> raises \<^verbatim>\<open>RuntimeError\<close> on an empty list of tensors.\<close>

definition torch_cat :: "('x, 't, 'f, 'w, 'g, 'o, 'r) env \<Rightarrow> 'x list \<Rightarrow> error + 'x" where
  "torch_cat env xs = (if xs = [] then Inl RuntimeError else Inr (cat env xs))"

text \<open>
  Line 37: one \<^verbatim>\<open>MSELoss(reduction='mean')\<close> for each input type of the autoencoder.
\<close>

definition reconstruction_loss_funcs :: "('x, 't, 'f, 'w, 'g, 'o, 'r) env \<Rightarrow> ('x \<Rightarrow> 'x \<Rightarrow> 't) list" where
  "reconstruction_loss_funcs env = [mse_loss env. datatype \<leftarrow> input_types_vae env]"

section \<open>State\<close>

text \<open>
  The calls the program makes are recorded in order, each with the place it is made from:
  \<^verbatim>\<open>train_step(epoch)\<close>, \<^verbatim>\<open>valid_step(epoch)\<close> or the script \<^verbatim>\<open>main.py\<close>. One iteration
  of a loop over a data loader is recorded when it ends, with what it computed. In training:
  the three losses of the batch, the tensor \<^verbatim>\<open>backward()\<close> was called on and the
  \<^verbatim>\<open>.grad\<close> that \<^verbatim>\<open>optimizer.step()\<close> read. In validation: whether automatic
  differentiation was on at the forward pass, the three tensors appended to
  \<^verbatim>\<open>event_indicator\<close>, \<^verbatim>\<open>event_time\<close> and \<^verbatim>\<open>estimate\<close>, and the three losses.
\<close>

datatype scope = Train nat | Valid nat | Script

record ('t, 'g) train_iteration =
  tr_kl_loss :: 't
  tr_reconstruction_losses :: "'t list"
  tr_survival_loss :: 't
  tr_backward :: 't
  tr_step :: "'g option"

record ('x, 't) valid_iteration =
  va_grad_enabled :: bool
  va_event_indicator :: 'x
  va_event_time :: 'x
  va_estimate :: 'x
  va_kl_loss :: 't
  va_reconstruction_losses :: "'t list"
  va_survival_loss :: 't

datatype ('x, 't, 'g, 'f) event =
    ModelTrain
  | ModelEval
  | ZeroGrad
  | TrainIter "('t, 'g) train_iteration"
  | ValidIter "('x, 't) valid_iteration"
  | Concordance 'x 'x 'x 'f
  | Makedirs string
  | ParseAll string

text \<open>What a file holds: the dumped results, the predictions, or the plots.\<close>

datatype ('f, 'pv) file_content = JsonDump "('f, 'pv) results_dict" | CsvPredictions | PdfPlots

text \<open>
  The state: the model (parameter values, the \<^verbatim>\<open>training\<close> flag, the accumulated
  \<^verbatim>\<open>.grad\<close>), whether automatic differentiation is switched on, the random number
  generator, the two mutable locals of \<^verbatim>\<open>fit\<close> (\<^verbatim>\<open>optimizer\<close> and \<^verbatim>\<open>results\<close>), the
  files written so far (in the order they were written), and the calls made so far.
\<close>

record ('x, 't, 'f, 'w, 'g, 'o, 'r, 'pv) state =
  weights :: 'w
  training :: bool
  grad :: "'g option"
  grad_enabled :: bool
  rng :: 'r
  optimizer :: 'o
  results :: "('f, 'pv) results_dict"
  files :: "(string \<times> ('f, 'pv) file_content) list"
  calls :: "(scope \<times> ('x, 't, 'g, 'f) event) list"

text \<open>A data loader: iterating it yields the batches of one pass and may draw random numbers.\<close>

type_synonym ('x, 'r) loader = "'r \<Rightarrow> 'x batch list \<times> 'r"

text \<open>
  \<^verbatim>\<open>t.backward()\<close> sets \<^verbatim>\<open>.grad\<close> when it is \<^verbatim>\<open>None\<close> and adds to it otherwise;
  \<^verbatim>\<open>optimizer.zero_grad()\<close> sets it to \<^verbatim>\<open>None\<close>.
\<close>

definition accumulate :: "'g::plus option \<Rightarrow> 'g \<Rightarrow> 'g option" where
  "accumulate old g = (case old of None \<Rightarrow> Some g | Some a \<Rightarrow> Some (a + g))"

section \<open>\<^verbatim>\<open>fit\<close>\<close>

subsection \<open>The losses of one batch\<close>

text \<open>
  Lines 53 to 62 of \<^verbatim>\<open>train_step\<close> and, but for the \<^verbatim>\<open>append\<close> of line 91, lines 92 to 101
  of \<^verbatim>\<open>valid_step\<close> are the same statements: the assertion on the number of outputs, the
  KL loss and its assertion, the reconstruction losses (a \<^verbatim>\<open>zip\<close> of three lists) and
  their assertions, the survival loss and its assertion. They change no state.
\<close>

definition batch_losses ::
  "('x, 't, 'f, 'w, 'g, 'o, 'r) env \<Rightarrow> 'x batch \<Rightarrow> 'x list \<Rightarrow> 'x list \<Rightarrow> 'x \<Rightarrow> 'x \<Rightarrow> 'x
     \<Rightarrow> error + ('t \<times> 't list \<times> 't)" where
  "batch_losses env data inputs_vae outputs mu logvar riskpred =
     (if length inputs_vae \<noteq> length outputs then Inl AssertionError
      else let batch_kl_loss = kl_loss_func env mu logvar in
      if isnan_any env batch_kl_loss then Inl AssertionError
      else let batch_reconstruction_losses =
                 [f output input_vae.
                    (f, output, input_vae) \<leftarrow> zip (reconstruction_loss_funcs env) (zip outputs inputs_vae)] in
      if list_ex (isnan_any env) batch_reconstruction_losses then Inl AssertionError
      else (case getitem data ''event_indicator'' of Inl e \<Rightarrow> Inl e | Inr event_indicator \<Rightarrow>
           (case getitem data ''event_time'' of Inl e \<Rightarrow> Inl e | Inr event_time \<Rightarrow>
      let batch_survival_loss = survival_loss_func env event_indicator event_time (flatten env riskpred) in
      if isnan_any env batch_survival_loss then Inl AssertionError
      else Inr (batch_kl_loss, batch_reconstruction_losses, batch_survival_loss))))"

subsection \<open>\<^verbatim>\<open>train_step\<close>\<close>

text \<open>
  The body of the loop of lines 49 to 68, on one batch. The running totals
  \<^verbatim>\<open>train_kl_loss\<close>, \<^verbatim>\<open>train_reconstruction_losses\<close> and \<^verbatim>\<open>train_survival_loss\<close> are its
  accumulator.
\<close>

definition train_iter ::
  "('x, 't::{plus,zero}, 'f::{plus,zero}, 'w, 'g::plus, 'o, 'r) env \<Rightarrow> nat \<Rightarrow> 'x batch
     \<Rightarrow> 'f \<times> 'f list \<times> 'f \<Rightarrow> ('x, 't, 'f, 'w, 'g, 'o, 'r, 'pv) state
     \<Rightarrow> ('f \<times> 'f list \<times> 'f, ('x, 't, 'f, 'w, 'g, 'o, 'r, 'pv) state) outcome" where
  "train_iter env epoch data acc s =
     (case acc of (train_kl_loss, train_reconstruction_losses, train_survival_loss) \<Rightarrow>
     (case getitems data (map X_key (input_types_vae env)) of Inl e \<Rightarrow> Raise e s | Inr inputs_vae \<Rightarrow>
     (case getitems data (map X_key (input_types_subtask env)) of Inl e \<Rightarrow> Raise e s | Inr inputs_task \<Rightarrow>
     (case forward env (weights s) (training s) (rng s) (inputs_vae, inputs_task) of
        ((outputs, mu, logvar, riskpred), r) \<Rightarrow>
      let s1 = s\<lparr>rng := r\<rparr> in
     (case batch_losses env data inputs_vae outputs mu logvar riskpred of Inl e \<Rightarrow> Raise e s1
      | Inr (batch_kl_loss, batch_reconstruction_losses, batch_survival_loss) \<Rightarrow>
      let batch_loss = batch_kl_loss + batch_survival_loss + py_sum batch_reconstruction_losses;
          s2 = s1\<lparr>grad := accumulate (grad s1) (backward env batch_loss)\<rparr>
      in (case optimizer_step env (optimizer s2) (weights s2) (grad s2) of (opt, w) \<Rightarrow>
      let s3 = s2\<lparr>optimizer := opt, weights := w,
                  calls := calls s2 @ [(Train epoch, TrainIter \<lparr>
                    tr_kl_loss = batch_kl_loss,
                    tr_reconstruction_losses = batch_reconstruction_losses,
                    tr_survival_loss = batch_survival_loss,
                    tr_backward = batch_loss,
                    tr_step = grad s2\<rparr>)]\<rparr>
      in Return (train_kl_loss + item env batch_kl_loss,
                 [i + item env j. (i, j) \<leftarrow> zip train_reconstruction_losses batch_reconstruction_losses],
                 train_survival_loss + item env batch_survival_loss) s3))))))"

fun train_loop ::
  "('x, 't::{plus,zero}, 'f::{plus,zero}, 'w, 'g::plus, 'o, 'r) env \<Rightarrow> nat \<Rightarrow> 'x batch list
     \<Rightarrow> 'f \<times> 'f list \<times> 'f \<Rightarrow> ('x, 't, 'f, 'w, 'g, 'o, 'r, 'pv) state
     \<Rightarrow> ('f \<times> 'f list \<times> 'f, ('x, 't, 'f, 'w, 'g, 'o, 'r, 'pv) state) outcome" where
  "train_loop env epoch [] acc s = Return acc s"
| "train_loop env epoch (data # rest) acc s =
     (case train_iter env epoch data acc s of
        Raise e s' \<Rightarrow> Raise e s'
      | Return acc' s' \<Rightarrow> train_loop env epoch rest acc' s')"

definition train_step ::
  "('x, 't::{plus,zero}, 'f::{plus,zero}, 'w, 'g::plus, 'o, 'r) env \<Rightarrow> ('x, 'r) loader \<Rightarrow> nat
     \<Rightarrow> ('x, 't, 'f, 'w, 'g, 'o, 'r, 'pv) state
     \<Rightarrow> ('f \<times> 'f list \<times> 'f, ('x, 't, 'f, 'w, 'g, 'o, 'r, 'pv) state) outcome" where
  "train_step env trainloader epoch s =
     (let s1 = s\<lparr>training := True, calls := calls s @ [(Train epoch, ModelTrain)]\<rparr>;
          s2 = s1\<lparr>grad := None, calls := calls s1 @ [(Train epoch, ZeroGrad)]\<rparr>;
          train_reconstruction_losses = [0. _ \<leftarrow> [0..<length (input_types_vae env)]];
          train_kl_loss = 0;
          train_survival_loss = 0
      in (case trainloader (rng s2) of (batches, r) \<Rightarrow>
     (case train_loop env epoch batches
             (train_kl_loss, train_reconstruction_losses, train_survival_loss) (s2\<lparr>rng := r\<rparr>) of
        Raise e s' \<Rightarrow> Raise e s'
      | Return (train_kl_loss, train_reconstruction_losses, train_survival_loss) s3 \<Rightarrow>
     (case log_train (input_types_vae env) epoch
             train_kl_loss train_reconstruction_losses train_survival_loss (results s3) of
        Inl e \<Rightarrow> Raise e s3
      | Inr res \<Rightarrow>
          Return (train_kl_loss, train_reconstruction_losses, train_survival_loss) (s3\<lparr>results := res\<rparr>)))))"

subsection \<open>\<^verbatim>\<open>valid_step\<close>\<close>

text \<open>
  \<^verbatim>\<open>with torch.no_grad():\<close> switches automatic differentiation off for its body and puts
  the former mode back when the body ends, also when it raises.
\<close>

definition no_grad ::
  "(('x, 't, 'f, 'w, 'g, 'o, 'r, 'pv) state \<Rightarrow> ('a, ('x, 't, 'f, 'w, 'g, 'o, 'r, 'pv) state) outcome)
     \<Rightarrow> ('x, 't, 'f, 'w, 'g, 'o, 'r, 'pv) state \<Rightarrow> ('a, ('x, 't, 'f, 'w, 'g, 'o, 'r, 'pv) state) outcome" where
  "no_grad body s =
     (case body (s\<lparr>grad_enabled := False\<rparr>) of
        Return v s' \<Rightarrow> Return v (s'\<lparr>grad_enabled := grad_enabled s\<rparr>)
      | Raise e s' \<Rightarrow> Raise e (s'\<lparr>grad_enabled := grad_enabled s\<rparr>))"

text \<open>
  Lines 88 to 101, the body of the \<^verbatim>\<open>with\<close>: it returns what line 91 appends to
  \<^verbatim>\<open>estimate\<close> and the three losses (and, for the record of the iteration, the mode of
  automatic differentiation at the forward pass).
\<close>

definition valid_forward ::
  "('x, 't, 'f, 'w, 'g, 'o, 'r) env \<Rightarrow> 'x batch \<Rightarrow> ('x, 't, 'f, 'w, 'g, 'o, 'r, 'pv) state
     \<Rightarrow> (bool \<times> 'x \<times> 't \<times> 't list \<times> 't, ('x, 't, 'f, 'w, 'g, 'o, 'r, 'pv) state) outcome" where
  "valid_forward env data s =
     (case getitems data (map X_key (input_types_vae env)) of Inl e \<Rightarrow> Raise e s | Inr inputs_vae \<Rightarrow>
     (case getitems data (map X_key (input_types_subtask env)) of Inl e \<Rightarrow> Raise e s | Inr inputs_task \<Rightarrow>
     (case forward env (weights s) (training s) (rng s) (inputs_vae, inputs_task) of
        ((outputs, mu, logvar, riskpred), r) \<Rightarrow>
      let s1 = s\<lparr>rng := r\<rparr> in
     (case batch_losses env data inputs_vae outputs mu logvar riskpred of Inl e \<Rightarrow> Raise e s1
      | Inr (batch_kl_loss, batch_reconstruction_losses, batch_survival_loss) \<Rightarrow>
          Return (grad_enabled s, flatten env riskpred,
                  batch_kl_loss, batch_reconstruction_losses, batch_survival_loss) s1))))"

text \<open>
  The body of the loop of lines 84 to 104, on one batch. Its accumulator is the three lists
  \<^verbatim>\<open>event_indicator\<close>, \<^verbatim>\<open>event_time\<close> and \<^verbatim>\<open>estimate\<close> and the three running totals.
\<close>

definition valid_iter ::
  "('x, 't, 'f::{plus,zero}, 'w, 'g, 'o, 'r) env \<Rightarrow> nat \<Rightarrow> 'x batch
     \<Rightarrow> 'x list \<times> 'x list \<times> 'x list \<times> 'f \<times> 'f list \<times> 'f \<Rightarrow> ('x, 't, 'f, 'w, 'g, 'o, 'r, 'pv) state
     \<Rightarrow> ('x list \<times> 'x list \<times> 'x list \<times> 'f \<times> 'f list \<times> 'f, ('x, 't, 'f, 'w, 'g, 'o, 'r, 'pv) state) outcome" where
  "valid_iter env epoch data acc s =
     (case acc of (event_indicator, event_time, estimate,
                   valid_kl_loss, valid_reconstruction_losses, valid_survival_loss) \<Rightarrow>
     (case getitem data ''event_indicator'' of Inl e \<Rightarrow> Raise e s | Inr ei \<Rightarrow>
     (case getitem data ''event_time'' of Inl e \<Rightarrow> Raise e s | Inr et \<Rightarrow>
     (case no_grad (valid_forward env data) s of
        Raise e s' \<Rightarrow> Raise e s'
      | Return (mode, est, batch_kl_loss, batch_reconstruction_losses, batch_survival_loss) s1 \<Rightarrow>
      let s2 = s1\<lparr>calls := calls s1 @ [(Valid epoch, ValidIter \<lparr>
                    va_grad_enabled = mode,
                    va_event_indicator = ei,
                    va_event_time = et,
                    va_estimate = est,
                    va_kl_loss = batch_kl_loss,
                    va_reconstruction_losses = batch_reconstruction_losses,
                    va_survival_loss = batch_survival_loss\<rparr>)]\<rparr>
      in Return (event_indicator @ [ei], event_time @ [et], estimate @ [est],
                 valid_kl_loss + item env batch_kl_loss,
                 [i + item env j. (i, j) \<leftarrow> zip valid_reconstruction_losses batch_reconstruction_losses],
                 valid_survival_loss + item env batch_survival_loss) s2))))"

fun valid_loop ::
  "('x, 't, 'f::{plus,zero}, 'w, 'g, 'o, 'r) env \<Rightarrow> nat \<Rightarrow> 'x batch list
     \<Rightarrow> 'x list \<times> 'x list \<times> 'x list \<times> 'f \<times> 'f list \<times> 'f \<Rightarrow> ('x, 't, 'f, 'w, 'g, 'o, 'r, 'pv) state
     \<Rightarrow> ('x list \<times> 'x list \<times> 'x list \<times> 'f \<times> 'f list \<times> 'f, ('x, 't, 'f, 'w, 'g, 'o, 'r, 'pv) state) outcome" where
  "valid_loop env epoch [] acc s = Return acc s"
| "valid_loop env epoch (data # rest) acc s =
     (case valid_iter env epoch data acc s of
        Raise e s' \<Rightarrow> Raise e s'
      | Return acc' s' \<Rightarrow> valid_loop env epoch rest acc' s')"

definition valid_step ::
  "('x, 't, 'f::{plus,zero}, 'w, 'g, 'o, 'r) env \<Rightarrow> ('x, 'r) loader \<Rightarrow> nat
     \<Rightarrow> ('x, 't, 'f, 'w, 'g, 'o, 'r, 'pv) state
     \<Rightarrow> ('f \<times> 'f list \<times> 'f \<times> 'f, ('x, 't, 'f, 'w, 'g, 'o, 'r, 'pv) state) outcome" where
  "valid_step env validloader epoch s =
     (let s1 = s\<lparr>training := False, calls := calls s @ [(Valid epoch, ModelEval)]\<rparr>;
          valid_reconstruction_losses = [0. _ \<leftarrow> [0..<length (input_types_vae env)]];
          valid_kl_loss = 0;
          valid_survival_loss = 0
      in (case validloader (rng s1) of (batches, r) \<Rightarrow>
     (case valid_loop env epoch batches
             ([], [], [], valid_kl_loss, valid_reconstruction_losses, valid_survival_loss) (s1\<lparr>rng := r\<rparr>) of
        Raise e s' \<Rightarrow> Raise e s'
      | Return (event_indicator, event_time, estimate,
                valid_kl_loss, valid_reconstruction_losses, valid_survival_loss) s2 \<Rightarrow>
     (case torch_cat env event_indicator of Inl e \<Rightarrow> Raise e s2 | Inr event_indicator \<Rightarrow>
     (case torch_cat env event_time of Inl e \<Rightarrow> Raise e s2 | Inr event_time \<Rightarrow>
     (case torch_cat env estimate of Inl e \<Rightarrow> Raise e s2 | Inr estimate \<Rightarrow>
      let valid_metric = ConcordanceIndex env event_indicator event_time estimate;
          s3 = s2\<lparr>calls := calls s2 @ [(Valid epoch, Concordance event_indicator event_time estimate valid_metric)]\<rparr>
      in (case log_valid (input_types_vae env) epoch
             valid_kl_loss valid_reconstruction_losses valid_survival_loss valid_metric (results s3) of
        Inl e \<Rightarrow> Raise e s3
      | Inr res \<Rightarrow>
          Return (valid_kl_loss, valid_reconstruction_losses, valid_survival_loss, valid_metric)
                 (s3\<lparr>results := res\<rparr>))))))))"

subsection \<open>The loop over the epochs and the dump\<close>

text \<open>
  The argument \<^verbatim>\<open>params\<close>: the attributes the two files read, and \<^verbatim>\<open>vars(params)\<close>, the
  dictionary of its attributes, whose values are kept abstract.
\<close>

record ('f, 'pv) params =
  lr :: 'f
  epochs :: int
  resultsprefix :: string
  batch_size :: int
  p_endpoint :: string
  p_shuffle :: int
  p_fold :: int
  param_vars :: "(string \<times> 'pv) list"

text \<open>Lines 121 to 125; \<^verbatim>\<open>range(params.epochs)\<close> is the list the loop runs over.\<close>

fun fit_epochs ::
  "('x, 't::{plus,zero}, 'f::{plus,zero}, 'w, 'g::plus, 'o, 'r) env \<Rightarrow> ('x, 'r) loader \<Rightarrow> ('x, 'r) loader
     \<Rightarrow> nat list \<Rightarrow> ('x, 't, 'f, 'w, 'g, 'o, 'r, 'pv) state
     \<Rightarrow> (unit, ('x, 't, 'f, 'w, 'g, 'o, 'r, 'pv) state) outcome" where
  "fit_epochs env trainloader validloader [] s = Return () s"
| "fit_epochs env trainloader validloader (epoch # rest) s =
     (let s1 = (if map_of (history (results s)) epoch = None
                then s\<lparr>results := (results s)\<lparr>history :=
                       AList.update epoch \<lparr>train = [], valid = []\<rparr> (history (results s))\<rparr>\<rparr>
                else s)
      in case train_step env trainloader epoch s1 of
           Raise e s' \<Rightarrow> Raise e s'
         | Return _ s2 \<Rightarrow>
     (case valid_step env validloader epoch s2 of
           Raise e s' \<Rightarrow> Raise e s'
         | Return _ s3 \<Rightarrow> fit_epochs env trainloader validloader rest s3))"

definition py_range :: "int \<Rightarrow> nat list" where
  "py_range n = [0..<nat n]"

text \<open>
  \<^verbatim>\<open>fit\<close> returns a Python value: \<open>None\<close> is \<^verbatim>\<open>None\<close>, and \<open>Some r\<close> would be a
  results dictionary. Writing the file appends to the files of the state.
\<close>

definition fit ::
  "('x, 't::{plus,zero}, 'f::{plus,zero}, 'w, 'g::plus, 'o, 'r) env \<Rightarrow> ('x, 'r) loader \<Rightarrow> ('x, 'r) loader
     \<Rightarrow> ('f, 'pv) params \<Rightarrow> ('x, 't, 'f, 'w, 'g, 'o, 'r, 'pv) state
     \<Rightarrow> (('f, 'pv) results_dict option, ('x, 't, 'f, 'w, 'g, 'o, 'r, 'pv) state) outcome" where
  "fit env trainloader validloader params s =
     (let s1 = s\<lparr>optimizer := adam env (lr params) (weights s)\<rparr>;
          s2 = s1\<lparr>results := \<lparr>r_params = [(k, v) \<leftarrow> param_vars params. \<not> startswith_underscore k],
                               history = []\<rparr>\<rparr>
      in case fit_epochs env trainloader validloader (py_range (epochs params)) s2 of
           Raise e s' \<Rightarrow> Raise e s'
         | Return _ s3 \<Rightarrow>
             Return None (s3\<lparr>files := files s3 @ [(resultsprefix params @ ''.json'', JsonDump (results s3))]\<rparr>))"

section \<open>\<^verbatim>\<open>main.py\<close>\<close>

subsection \<open>The command line\<close>

text \<open>
  The parser of lines 22 to 25 declares three options. A command line is what it gives
  for each of them (\<open>None\<close> when the option is absent). An option's value goes through
  its \<^verbatim>\<open>type\<close> (\<^verbatim>\<open>str\<close> or \<^verbatim>\<open>int\<close>; Python's \<^verbatim>\<open>int\<close> is the parameter \<open>py_int\<close>, which
  is \<open>None\<close> where \<^verbatim>\<open>int\<close> raises) and is then looked up in \<^verbatim>\<open>choices\<close>; a failure of
  either is \<^verbatim>\<open>parser.error\<close>, which exits with status 2. An absent option takes its
  \<^verbatim>\<open>default\<close>.
\<close>

record cmdline =
  endpoint_arg :: "string option"
  shuffle_arg :: "string option"
  fold_arg :: "string option"

record args =
  endpoint :: string
  shuffle :: int
  fold_index :: int

definition str_choice :: "string list \<Rightarrow> string \<Rightarrow> string option \<Rightarrow> error + string" where
  "str_choice choices dflt given =
     (case given of
        None \<Rightarrow> Inr dflt
      | Some v \<Rightarrow> if v \<in> set choices then Inr v else Inl (SystemExit 2))"

definition int_choice :: "(string \<Rightarrow> int option) \<Rightarrow> int \<Rightarrow> int \<Rightarrow> string option \<Rightarrow> error + int" where
  "int_choice py_int n dflt given =
     (case given of
        None \<Rightarrow> Inr dflt
      | Some v \<Rightarrow>
          (case py_int v of
             None \<Rightarrow> Inl (SystemExit 2)
           | Some i \<Rightarrow> if i \<in> set (map int (py_range n)) then Inr i else Inl (SystemExit 2)))"

definition parse_args :: "(string \<Rightarrow> int option) \<Rightarrow> cmdline \<Rightarrow> error + args" where
  "parse_args py_int cmd =
     (case str_choice [''pfs'', ''os''] ''pfs'' (endpoint_arg cmd) of Inl e \<Rightarrow> Inl e | Inr ep \<Rightarrow>
     (case int_choice py_int 10 0 (shuffle_arg cmd) of Inl e \<Rightarrow> Inl e | Inr sh \<Rightarrow>
     (case int_choice py_int 5 0 (fold_arg cmd) of Inl e \<Rightarrow> Inl e | Inr fo \<Rightarrow>
        Inr \<lparr>endpoint = ep, shuffle = sh, fold_index = fo\<rparr>)))"

subsection \<open>The script\<close>

text \<open>
  What the script imports and does not define: \<^verbatim>\<open>VAEParams\<close> (\<open>specify_params\<close>),
  \<^verbatim>\<open>os.path.dirname\<close>, \<^verbatim>\<open>parse_all\<close>, \<^verbatim>\<open>kfold_split\<close>, the scaler, the data loader over a
  \<^verbatim>\<open>Dataset\<close> (given the dataframe, the parameters, the batch size and \<^verbatim>\<open>shuffle\<close>), and
  the constructor of the model, which draws the initial parameter values. Type \<open>'df\<close> is a
  dataframe.
\<close>

record ('x, 't, 'f, 'w, 'g, 'o, 'r, 'pv, 'df) main_env =
  torch_env :: "('x, 't, 'f, 'w, 'g, 'o, 'r) env"
  py_int :: "string \<Rightarrow> int option"
  specify_params :: "string \<Rightarrow> int \<Rightarrow> int \<Rightarrow> ('f, 'pv) params"
  dirname :: "string \<Rightarrow> string"
  parse_all :: "string \<Rightarrow> 'df"
  kfold_split :: "'df \<Rightarrow> int \<Rightarrow> int \<Rightarrow> 'df \<times> 'df"
  scale_impute :: "'df \<Rightarrow> 'df \<Rightarrow> 'df \<times> 'df"
  dataloader :: "'df \<Rightarrow> ('f, 'pv) params \<Rightarrow> int \<Rightarrow> bool \<Rightarrow> ('x, 'r) loader"
  new_model :: "('f, 'pv) params \<Rightarrow> 'r \<Rightarrow> 'w \<times> 'r"

text \<open>
  Modelled from the spec: \<^verbatim>\<open>predict_to_csv\<close> of \<^verbatim>\<open>utils/predict.py\<close>, which is not among the
  sources. The predictions on the validation loader are written to the file it is given.
\<close>

definition predict_to_csv ::
  "string \<Rightarrow> ('x, 't, 'f, 'w, 'g, 'o, 'r, 'pv) state \<Rightarrow> (unit, ('x, 't, 'f, 'w, 'g, 'o, 'r, 'pv) state) outcome" where
  "predict_to_csv path s = Return () (s\<lparr>files := files s @ [(path, CsvPredictions)]\<rparr>)"

text \<open>
  Modelled from the spec: \<^verbatim>\<open>plot_results_to_pdf\<close> of \<^verbatim>\<open>utils/plotlosses.py\<close>, which is not
  among the sources. The losses and metrics of the JSON file are plotted to the PDF file;
  the JSON file has to be there.
\<close>

definition plot_results_to_pdf ::
  "string \<Rightarrow> string \<Rightarrow> ('x, 't, 'f, 'w, 'g, 'o, 'r, 'pv) state
     \<Rightarrow> (unit, ('x, 't, 'f, 'w, 'g, 'o, 'r, 'pv) state) outcome" where
  "plot_results_to_pdf json_path pdf_path s =
     (case map_of (files s) json_path of
        None \<Rightarrow> Raise FileNotFoundError s
      | Some _ \<Rightarrow> Return () (s\<lparr>files := files s @ [(pdf_path, PdfPlots)]\<rparr>))"

text \<open>Lines 28, 32 and 33: the parameters, the full dataframe and its split.\<close>

definition main_split ::
  "('x, 't, 'f, 'w, 'g, 'o, 'r, 'pv, 'df) main_env \<Rightarrow> args \<Rightarrow> 'df \<times> 'df" where
  "main_split menv a =
     (let params = specify_params menv (endpoint a) (shuffle a) (fold_index a);
          full_dataframe = parse_all menv (p_endpoint params)
      in kfold_split menv full_dataframe (p_shuffle params) (p_fold params))"

text \<open>
  The script, from line 22 on. A model that has just been built is in training mode and has
  no gradient.
\<close>

definition main ::
  "('x, 't::{plus,zero}, 'f::{plus,zero}, 'w, 'g::plus, 'o, 'r, 'pv, 'df) main_env \<Rightarrow> cmdline
     \<Rightarrow> ('x, 't, 'f, 'w, 'g, 'o, 'r, 'pv) state
     \<Rightarrow> (unit, ('x, 't, 'f, 'w, 'g, 'o, 'r, 'pv) state) outcome" where
  "main menv cmd s =
     (case parse_args (py_int menv) cmd of Inl e \<Rightarrow> Raise e s | Inr a \<Rightarrow>
      let params = specify_params menv (endpoint a) (shuffle a) (fold_index a);
          s1 = s\<lparr>calls := calls s @ [(Script, Makedirs (dirname menv (resultsprefix params)))]\<rparr>;
          s2 = s1\<lparr>calls := calls s1 @ [(Script, ParseAll (p_endpoint params))]\<rparr>
      in (case main_split menv a of (train_dataframe, valid_dataframe) \<Rightarrow>
         (case scale_impute menv train_dataframe valid_dataframe of
            (train_dataframe_scaled, valid_dataframe_scaled) \<Rightarrow>
          let trainloader = dataloader menv train_dataframe_scaled params (batch_size params) True;
              validloader = dataloader menv valid_dataframe_scaled params 128 False
          in (case new_model menv params (rng s2) of (w, r) \<Rightarrow>
          let s3 = s2\<lparr>weights := w, training := True, grad := None, rng := r\<rparr>
          in (case fit (torch_env menv) trainloader validloader params s3 of
                Raise e s' \<Rightarrow> Raise e s'
              | Return _ s4 \<Rightarrow>
             (case predict_to_csv (resultsprefix params @ ''.csv'') s4 of
                Raise e s' \<Rightarrow> Raise e s'
              | Return _ s5 \<Rightarrow>
                  plot_results_to_pdf (resultsprefix params @ ''.json'') (resultsprefix params @ ''.pdf'') s5))))))"

section \<open>Reading the record of calls\<close>

text \<open>
  The iterations of \<^verbatim>\<open>train_step(epoch)\<close> and of \<^verbatim>\<open>valid_step(epoch)\<close> in a record of calls,
  in the order they ran; the calls of \<^verbatim>\<open>ConcordanceIndex\<close> made by \<^verbatim>\<open>valid_step(epoch)\<close>;
  and the places \<^verbatim>\<open>model.train()\<close> and \<^verbatim>\<open>model.eval()\<close> were called from, which are the
  first statements of the two steps.
\<close>

primrec train_iters :: "nat \<Rightarrow> (scope \<times> ('x, 't, 'g, 'f) event) list \<Rightarrow> ('t, 'g) train_iteration list" where
  "train_iters epoch [] = []"
| "train_iters epoch (c # cs) =
     (case c of
        (sc, TrainIter it) \<Rightarrow> if sc = Train epoch then it # train_iters epoch cs else train_iters epoch cs
      | _ \<Rightarrow> train_iters epoch cs)"

primrec valid_iters :: "nat \<Rightarrow> (scope \<times> ('x, 't, 'g, 'f) event) list \<Rightarrow> ('x, 't) valid_iteration list" where
  "valid_iters epoch [] = []"
| "valid_iters epoch (c # cs) =
     (case c of
        (sc, ValidIter it) \<Rightarrow> if sc = Valid epoch then it # valid_iters epoch cs else valid_iters epoch cs
      | _ \<Rightarrow> valid_iters epoch cs)"

primrec concordance_calls :: "nat \<Rightarrow> (scope \<times> ('x, 't, 'g, 'f) event) list \<Rightarrow> ('x \<times> 'x \<times> 'x \<times> 'f) list" where
  "concordance_calls epoch [] = []"
| "concordance_calls epoch (c # cs) =
     (case c of
        (sc, Concordance ei et est m) \<Rightarrow>
          if sc = Valid epoch then (ei, et, est, m) # concordance_calls epoch cs
          else concordance_calls epoch cs
      | _ \<Rightarrow> concordance_calls epoch cs)"

primrec step_order :: "(scope \<times> ('x, 't, 'g, 'f) event) list \<Rightarrow> scope list" where
  "step_order [] = []"
| "step_order (c # cs) =
     (case c of
        (sc, ModelTrain) \<Rightarrow> sc # step_order cs
      | (sc, ModelEval) \<Rightarrow> sc # step_order cs
      | _ \<Rightarrow> step_order cs)"

text \<open>
  The sum, over a list of iterations, of one reconstruction loss each: the one at position
  \<open>m\<close> in the list \<open>losses it\<close> of the iteration.
\<close>

definition sum_at :: "('t \<Rightarrow> 'f::{plus,zero}) \<Rightarrow> ('i \<Rightarrow> 't list) \<Rightarrow> 'i list \<Rightarrow> nat \<Rightarrow> 'f" where
  "sum_at conv losses its m = py_sum [conv (losses it ! m). it \<leftarrow> its]"

text \<open>
  What the assertions and the sum of line 63 give for a recorded iteration: the tensor given
  to \<^verbatim>\<open>backward()\<close> is the sum of the three loss terms, no loss is NaN, and there is one
  reconstruction loss for each input type of the autoencoder. In validation, automatic
  differentiation was off at the forward pass.
\<close>

definition train_iteration_ok :: "('x, 't::{plus,zero}, 'f, 'w, 'g, 'o, 'r) env \<Rightarrow> ('t, 'g) train_iteration \<Rightarrow> bool" where
  "train_iteration_ok env it \<longleftrightarrow>
     tr_backward it = tr_kl_loss it + tr_survival_loss it + py_sum (tr_reconstruction_losses it)
     \<and> \<not> isnan_any env (tr_kl_loss it)
     \<and> \<not> list_ex (isnan_any env) (tr_reconstruction_losses it)
     \<and> \<not> isnan_any env (tr_survival_loss it)
     \<and> length (tr_reconstruction_losses it) = length (input_types_vae env)"

definition valid_iteration_ok :: "('x, 't, 'f, 'w, 'g, 'o, 'r) env \<Rightarrow> ('x, 't) valid_iteration \<Rightarrow> bool" where
  "valid_iteration_ok env it \<longleftrightarrow>
     \<not> va_grad_enabled it
     \<and> \<not> isnan_any env (va_kl_loss it)
     \<and> \<not> list_ex (isnan_any env) (va_reconstruction_losses it)
     \<and> \<not> isnan_any env (va_survival_loss it)
     \<and> length (va_reconstruction_losses it) = length (input_types_vae env)"

definition call_ok :: "('x, 't::{plus,zero}, 'f, 'w, 'g, 'o, 'r) env \<Rightarrow> scope \<times> ('x, 't, 'g, 'f) event \<Rightarrow> bool" where
  "call_ok env c =
     (case snd c of
        TrainIter it \<Rightarrow> train_iteration_ok env it
      | ValidIter it \<Rightarrow> valid_iteration_ok env it
      | _ \<Rightarrow> True)"

text \<open>
  The values of \<^verbatim>\<open>.grad\<close> after each of a sequence of \<^verbatim>\<open>backward()\<close> calls with no
  \<^verbatim>\<open>zero_grad()\<close> between them, from the value \<open>g\<close> before the first.
\<close>

fun grad_seq :: "'g::plus option \<Rightarrow> 'g list \<Rightarrow> 'g option list" where
  "grad_seq g [] = []"
| "grad_seq g (x # xs) = accumulate g x # grad_seq (accumulate g x) xs"

text \<open>
  The two dictionaries of an epoch's entry as the sums, over the recorded iterations, of the
  losses of each iteration.
\<close>

definition train_entry ::
  "('x, 't, 'f::{plus,zero}, 'w, 'g, 'o, 'r) env \<Rightarrow> ('t, 'g) train_iteration list \<Rightarrow> (string \<times> 'f jval) list" where
  "train_entry env its =
     [(''kl_loss'', Num (py_sum [item env (tr_kl_loss it). it \<leftarrow> its])),
      (''reconstruction_loss'', Obj (dict_of_zip (input_types_vae env)
          [sum_at (item env) tr_reconstruction_losses its m. m \<leftarrow> [0..<length (input_types_vae env)]])),
      (''survival_loss'', Num (py_sum [item env (tr_survival_loss it). it \<leftarrow> its]))]"

definition valid_entry ::
  "('x, 't, 'f::{plus,zero}, 'w, 'g, 'o, 'r) env \<Rightarrow> ('x, 't) valid_iteration list \<Rightarrow> 'f \<Rightarrow> (string \<times> 'f jval) list" where
  "valid_entry env its metric =
     [(''kl_loss'', Num (py_sum [item env (va_kl_loss it). it \<leftarrow> its])),
      (''reconstruction_loss'', Obj (dict_of_zip (input_types_vae env)
          [sum_at (item env) va_reconstruction_losses its m. m \<leftarrow> [0..<length (input_types_vae env)]])),
      (''survival_loss'', Num (py_sum [item env (va_survival_loss it). it \<leftarrow> its])),
      (''metric'', Num metric)]"

text \<open>
  What one pass of the loop over the epochs leaves behind for its epoch, read from the calls
  \<open>new\<close> of a run: the entry is made of the sums over the recorded iterations and the
  metric; \<^verbatim>\<open>ConcordanceIndex\<close> was called once, on the concatenations of what the
  iterations appended; the validation loader gave at least one batch, and the iterations'
  event indicators and times are those of its batches, in its order; there is one training
  iteration for each batch of the training loader; and every iteration passed its assertions.
\<close>

definition epoch_facts ::
  "('x, 't::{plus,zero}, 'f::{plus,zero}, 'w, 'g, 'o, 'r) env \<Rightarrow> ('x, 'r) loader \<Rightarrow> ('x, 'r) loader \<Rightarrow> nat
     \<Rightarrow> (scope \<times> ('x, 't, 'g, 'f) event) list \<Rightarrow> 'f epoch_entry \<Rightarrow> bool" where
  "epoch_facts env trainloader validloader e new ent \<longleftrightarrow>
     (\<exists>m. ent = \<lparr>train = train_entry env (train_iters e new),
                 valid = valid_entry env (valid_iters e new) m\<rparr>
        \<and> concordance_calls e new =
            [(cat env (map va_event_indicator (valid_iters e new)),
              cat env (map va_event_time (valid_iters e new)),
              cat env (map va_estimate (valid_iters e new)), m)]
        \<and> m = ConcordanceIndex env (cat env (map va_event_indicator (valid_iters e new)))
                 (cat env (map va_event_time (valid_iters e new)))
                 (cat env (map va_estimate (valid_iters e new))))
     \<and> valid_iters e new \<noteq> []
     \<and> (\<exists>r. length (train_iters e new) = length (fst (trainloader r)))
     \<and> (\<exists>r. map (\<lambda>data. data ''event_indicator'') (fst (validloader r))
                = map (\<lambda>it. Some (va_event_indicator it)) (valid_iters e new)
           \<and> map (\<lambda>data. data ''event_time'') (fst (validloader r))
                = map (\<lambda>it. Some (va_event_time it)) (valid_iters e new))
     \<and> (\<forall>it\<in>set (train_iters e new). train_iteration_ok env it)
     \<and> (\<forall>it\<in>set (valid_iters e new). valid_iteration_ok env it)"

section \<open>Python floats and a small instance\<close>

text \<open>
  A Python float is a finite number, an infinity or NaN. Addition is exact on finite numbers
  here (rounding and overflow are left out) and follows IEEE 754 on the others: NaN
  propagates, and the sum of the two infinities is NaN. The integer \<^verbatim>\<open>0\<close> that starts a
  running total is the float zero.
\<close>

datatype pyfloat = Fin real | PInf | NInf | NaN

instantiation pyfloat :: "{plus, zero}"
begin

definition zero_pyfloat :: pyfloat where
  "zero_pyfloat = Fin 0"

fun plus_pyfloat :: "pyfloat \<Rightarrow> pyfloat \<Rightarrow> pyfloat" where
  "plus_pyfloat NaN y = NaN"
| "plus_pyfloat x NaN = NaN"
| "plus_pyfloat PInf NInf = NaN"
| "plus_pyfloat NInf PInf = NaN"
| "plus_pyfloat PInf y = PInf"
| "plus_pyfloat x PInf = PInf"
| "plus_pyfloat NInf y = NInf"
| "plus_pyfloat x NInf = NInf"
| "plus_pyfloat (Fin a) (Fin b) = Fin (a + b)"

instance ..

end

text \<open>
  A small instance of the collaborators, to run the definitions on: a tensor is a list of
  floats, the model has one weight, and the losses are sums of entries.
\<close>

definition toy_env :: "(pyfloat list, pyfloat, pyfloat, pyfloat, pyfloat, nat, nat) env" where
  "toy_env = \<lparr>
     input_types_vae = [''rna''],
     input_types_subtask = [''clin''],
     forward = (\<lambda>w training r (inputs_vae, inputs_task).
                  (([map (\<lambda>v. v + w) x. x \<leftarrow> inputs_vae], [w], [Fin 0], concat inputs_task), Suc r)),
     flatten = (\<lambda>x. x),
     kl_loss_func = (\<lambda>mu logvar. py_sum mu + py_sum logvar),
     mse_loss = (\<lambda>output input. py_sum output + py_sum input),
     survival_loss_func = (\<lambda>event_indicator event_time estimate. py_sum event_time + py_sum estimate),
     isnan_any = (\<lambda>t. t = NaN),
     item = (\<lambda>t. t),
     backward = (\<lambda>t. t),
     adam = (\<lambda>lr w. 0),
     optimizer_step = (\<lambda>opt w g. (Suc opt, case g of None \<Rightarrow> w | Some v \<Rightarrow> w + v)),
     cat = concat,
     ConcordanceIndex = (\<lambda>event_indicator event_time estimate. py_sum estimate)\<rparr>"

definition toy_batch :: "real \<Rightarrow> pyfloat \<Rightarrow> pyfloat list batch" where
  "toy_batch x t = map_of [(''X_rna'', [Fin x]), (''X_clin'', [Fin 1]),
                           (''event_indicator'', [Fin 1]), (''event_time'', [t])]"

definition toy_state :: "(pyfloat list, pyfloat, pyfloat, pyfloat, pyfloat, nat, nat, string) state" where
  "toy_state = \<lparr>weights = Fin 0, training = False, grad = None, grad_enabled = True, rng = 0,
                 optimizer = 0, results = \<lparr>r_params = [], history = []\<rparr>, files = [], calls = []\<rparr>"

text \<open>The state in which epoch 0 has its empty entry, as the loop of line 121 leaves it.\<close>

definition toy_epoch_state :: "(pyfloat list, pyfloat, pyfloat, pyfloat, pyfloat, nat, nat, string) state" where
  "toy_epoch_state = toy_state\<lparr>results := \<lparr>r_params = [], history = [(0, \<lparr>train = [], valid = []\<rparr>)]\<rparr>\<rparr>"

definition toy_params :: "(pyfloat, string) params" where
  "toy_params = \<lparr>lr = Fin 1, epochs = 1, resultsprefix = ''out/run'', batch_size = 1,
                  p_endpoint = ''pfs'', p_shuffle = 0, p_fold = 0,
                  param_vars = [(''lr'', ''1.0''), (''_private'', ''x''), (''epochs'', ''1'')]\<rparr>"

definition toy_trainloader :: "(pyfloat list, nat) loader" where
  "toy_trainloader r = ([toy_batch 1 (Fin 5), toy_batch 10 (Fin 7)], Suc r)"

definition toy_validloader :: "(pyfloat list, nat) loader" where
  "toy_validloader r = ([toy_batch 1 (Fin 5), toy_batch 2 (Fin 3)], r)"




definition toy_main_env ::
  "(pyfloat list, pyfloat, pyfloat, pyfloat, pyfloat, nat, nat, string, real list) main_env" where
  "toy_main_env = \<lparr>
     torch_env = toy_env,
     py_int = (\<lambda>v. if v = ''0'' then Some 0 else if v = ''3'' then Some 3
                    else if v = ''7'' then Some 7 else None),
     specify_params = (\<lambda>ep sh fo. toy_params\<lparr>p_endpoint := ep, p_shuffle := sh, p_fold := fo\<rparr>),
     dirname = (\<lambda>path. ''out''),
     parse_all = (\<lambda>ep. [1, 2, 3]),
     kfold_split = (\<lambda>df sh fo. (tl df, [hd df])),
     scale_impute = (\<lambda>tr va. (tr, va)),
     dataloader = (\<lambda>df params bs sh r. ([toy_batch x (Fin 5). x \<leftarrow> df], if sh then Suc r else r)),
     new_model = (\<lambda>params r. (Fin 0, Suc r))\<rparr>"

definition toy_cmd :: cmdline where
  "toy_cmd = \<lparr>endpoint_arg = Some ''os'', shuffle_arg = None, fold_arg = Some ''3''\<rparr>"


section \<open>Lemmas\<close>

lemma train_iters_append: "train_iters e (a @ b) = train_iters e a @ train_iters e b"
  by (induction a) (auto split: prod.splits event.splits)

lemma valid_iters_append: "valid_iters e (a @ b) = valid_iters e a @ valid_iters e b"
  by (induction a) (auto split: prod.splits event.splits)

lemma concordance_calls_append:
  "concordance_calls e (a @ b) = concordance_calls e a @ concordance_calls e b"
  by (induction a) (auto split: prod.splits event.splits)

lemma step_order_append: "step_order (a @ b) = step_order a @ step_order b"
  by (induction a) (auto split: prod.splits event.splits)

lemma batch_losses_Inr:
  assumes "batch_losses env data inputs_vae outputs mu logvar riskpred = Inr (kl, recs, surv)"
  shows "length inputs_vae = length outputs
    \<and> kl = kl_loss_func env mu logvar
    \<and> recs = [f output input_vae. (f, output, input_vae) \<leftarrow> zip (reconstruction_loss_funcs env) (zip outputs inputs_vae)]
    \<and> \<not> isnan_any env kl
    \<and> \<not> list_ex (isnan_any env) recs
    \<and> \<not> isnan_any env surv
    \<and> (\<exists>ei et. data ''event_indicator'' = Some ei \<and> data ''event_time'' = Some et
           \<and> surv = survival_loss_func env ei et (flatten env riskpred))"
  using assms
  by (auto simp: batch_losses_def Let_def getitem_def split: if_splits sum.splits option.splits)

lemma getitems_length: "getitems data ks = Inr vs \<Longrightarrow> length vs = length ks"
  by (induction ks arbitrary: vs) (auto split: sum.splits)

lemma train_iter_Return:
  assumes "train_iter env epoch data (kl, recs, surv) s = Return acc' s'"
  shows "\<exists>it. calls s' = calls s @ [(Train epoch, TrainIter it)]
      \<and> acc' = (kl + item env (tr_kl_loss it),
                [i + item env j. (i, j) \<leftarrow> zip recs (tr_reconstruction_losses it)],
                surv + item env (tr_survival_loss it))
      \<and> tr_backward it = tr_kl_loss it + tr_survival_loss it + py_sum (tr_reconstruction_losses it)
      \<and> tr_step it = accumulate (grad s) (backward env (tr_backward it))
      \<and> grad s' = tr_step it
      \<and> (optimizer s', weights s') = optimizer_step env (optimizer s) (weights s) (tr_step it)
      \<and> \<not> isnan_any env (tr_kl_loss it)
      \<and> \<not> list_ex (isnan_any env) (tr_reconstruction_losses it)
      \<and> \<not> isnan_any env (tr_survival_loss it)
      \<and> length (tr_reconstruction_losses it) = length (input_types_vae env)
      \<and> results s' = results s \<and> files s' = files s \<and> grad_enabled s' = grad_enabled s
      \<and> training s' = training s"
  using assms
  apply (simp add: train_iter_def Let_def split: sum.splits prod.splits)
  apply (auto dest!: batch_losses_Inr getitems_length simp: reconstruction_loss_funcs_def)
  done


lemma train_iter_frame:
  "results (state_of (train_iter env epoch data acc s)) = results s
   \<and> files (state_of (train_iter env epoch data acc s)) = files s
   \<and> grad_enabled (state_of (train_iter env epoch data acc s)) = grad_enabled s
   \<and> training (state_of (train_iter env epoch data acc s)) = training s"
  by (simp add: train_iter_def Let_def split: sum.splits prod.splits)

lemma train_iter_Raise:
  "train_iter env epoch data acc s = Raise e s' \<Longrightarrow> calls s' = calls s"
  by (auto simp add: train_iter_def Let_def split: sum.splits prod.splits)

lemma train_loop_frame:
  "results (state_of (train_loop env epoch batches acc s)) = results s
   \<and> files (state_of (train_loop env epoch batches acc s)) = files s
   \<and> grad_enabled (state_of (train_loop env epoch batches acc s)) = grad_enabled s
   \<and> training (state_of (train_loop env epoch batches acc s)) = training s"
proof (induction batches arbitrary: acc s)
  case Nil
  show ?case by simp
next
  case (Cons data rest)
  show ?case
  proof (cases "train_iter env epoch data acc s")
    case (Return acc' s')
    with Cons[of acc' s'] train_iter_frame[of env epoch data acc s] show ?thesis by simp
  next
    case (Raise e s')
    with train_iter_frame[of env epoch data acc s] show ?thesis by simp
  qed
qed

lemma train_loop_Return:
  assumes "train_loop env epoch batches (kl, recs, surv) s = Return (kl', recs', surv') s'"
  shows "\<exists>its. calls s' = calls s @ map (\<lambda>it. (Train epoch, TrainIter it)) its
      \<and> length its = length batches
      \<and> kl' = foldl (+) kl (map (\<lambda>it. item env (tr_kl_loss it)) its)
      \<and> surv' = foldl (+) surv (map (\<lambda>it. item env (tr_survival_loss it)) its)
      \<and> recs' = foldl (\<lambda>acc it. [i + item env j. (i, j) \<leftarrow> zip acc (tr_reconstruction_losses it)]) recs its
      \<and> (\<forall>it\<in>set its.
            tr_backward it = tr_kl_loss it + tr_survival_loss it + py_sum (tr_reconstruction_losses it)
          \<and> \<not> isnan_any env (tr_kl_loss it)
          \<and> \<not> list_ex (isnan_any env) (tr_reconstruction_losses it)
          \<and> \<not> isnan_any env (tr_survival_loss it)
          \<and> length (tr_reconstruction_losses it) = length (input_types_vae env))"
  using assms
proof (induction batches arbitrary: kl recs surv s)
  case Nil
  then show ?case by simp
next
  case (Cons data rest)
  from Cons.prems obtain acc1 s1 where
    it: "train_iter env epoch data (kl, recs, surv) s = Return acc1 s1"
    and rest: "train_loop env epoch rest acc1 s1 = Return (kl', recs', surv') s'"
    by (auto split: outcome.splits)
  from train_iter_Return[OF it] obtain it0 where
    c: "calls s1 = calls s @ [(Train epoch, TrainIter it0)]"
    and a: "acc1 = (kl + item env (tr_kl_loss it0),
                [i + item env j. (i, j) \<leftarrow> zip recs (tr_reconstruction_losses it0)],
                surv + item env (tr_survival_loss it0))"
    and g: "tr_backward it0 = tr_kl_loss it0 + tr_survival_loss it0 + py_sum (tr_reconstruction_losses it0)"
       "\<not> isnan_any env (tr_kl_loss it0)"
       "\<not> list_ex (isnan_any env) (tr_reconstruction_losses it0)"
       "\<not> isnan_any env (tr_survival_loss it0)"
       "length (tr_reconstruction_losses it0) = length (input_types_vae env)"
    by blast
  from Cons.IH[OF rest[unfolded a]] obtain its where
    r: "calls s' = calls s1 @ map (\<lambda>it. (Train epoch, TrainIter it)) its"
      "length its = length rest"
      "kl' = foldl (+) (kl + item env (tr_kl_loss it0)) (map (\<lambda>it. item env (tr_kl_loss it)) its)"
      "surv' = foldl (+) (surv + item env (tr_survival_loss it0)) (map (\<lambda>it. item env (tr_survival_loss it)) its)"
      "recs' = foldl (\<lambda>acc it. [i + item env j. (i, j) \<leftarrow> zip acc (tr_reconstruction_losses it)])
                 [i + item env j. (i, j) \<leftarrow> zip recs (tr_reconstruction_losses it0)] its"
      "\<forall>it\<in>set its.
            tr_backward it = tr_kl_loss it + tr_survival_loss it + py_sum (tr_reconstruction_losses it)
          \<and> \<not> isnan_any env (tr_kl_loss it)
          \<and> \<not> list_ex (isnan_any env) (tr_reconstruction_losses it)
          \<and> \<not> isnan_any env (tr_survival_loss it)
          \<and> length (tr_reconstruction_losses it) = length (input_types_vae env)"
    by blast
  show ?case
    apply (rule exI[of _ "it0 # its"])
    using c r g by simp
qed


lemma foldl_zip_add:
  assumes "\<forall>it\<in>set its. length (f it) = n" and "length acc = n"
  shows "foldl (\<lambda>acc it. [i + c j. (i, j) \<leftarrow> zip acc (f it)]) acc its
         = map (\<lambda>m. foldl (+) (acc ! m) (map (\<lambda>it. c (f it ! m)) its)) [0..<n]"
  using assms
proof (induction its arbitrary: acc)
  case Nil
  then have "n = length acc" by simp
  then show ?case by (simp add: map_nth)
next
  case (Cons it its)
  let ?acc = "[i + c j. (i, j) \<leftarrow> zip acc (f it)]"
  have len: "length ?acc = n" using Cons.prems by simp
  have nth: "\<And>m. m < n \<Longrightarrow> ?acc ! m = acc ! m + c (f it ! m)"
    using Cons.prems by simp
  have "foldl (\<lambda>acc it. [i + c j. (i, j) \<leftarrow> zip acc (f it)]) ?acc its
        = map (\<lambda>m. foldl (+) (?acc ! m) (map (\<lambda>it. c (f it ! m)) its)) [0..<n]"
    using Cons.IH[OF _ len] Cons.prems by simp
  also have "\<dots> = map (\<lambda>m. foldl (+) (acc ! m + c (f it ! m)) (map (\<lambda>it. c (f it ! m)) its)) [0..<n]"
    using nth by (intro map_cong) auto
  finally show ?case by simp
qed

lemma set_train_Inr:
  "set_train e k v res = Inr res' \<longleftrightarrow>
     (\<exists>ent. map_of (history res) e = Some ent
        \<and> res' = res\<lparr>history := AList.update e (ent\<lparr>train := AList.update k v (train ent)\<rparr>) (history res)\<rparr>)"
  by (auto simp: set_train_def split: option.splits)

lemma set_valid_Inr:
  "set_valid e k v res = Inr res' \<longleftrightarrow>
     (\<exists>ent. map_of (history res) e = Some ent
        \<and> res' = res\<lparr>history := AList.update e (ent\<lparr>valid := AList.update k v (valid ent)\<rparr>) (history res)\<rparr>)"
  by (auto simp: set_valid_def split: option.splits)

lemma set_train_Inl:
  "set_train e k v res = Inl err \<longleftrightarrow> map_of (history res) e = None \<and> err = KeyError"
  by (auto simp: set_train_def split: option.splits)

lemma set_valid_Inl:
  "set_valid e k v res = Inl err \<longleftrightarrow> map_of (history res) e = None \<and> err = KeyError"
  by (auto simp: set_valid_def split: option.splits)

lemma log_train_Inr:
  "log_train types e kl rs sv res = Inr res' \<longleftrightarrow>
     (\<exists>ent. map_of (history res) e = Some ent
        \<and> res' = res\<lparr>history := AList.update e
              (ent\<lparr>train := AList.update ''survival_loss'' (Num sv)
                               (AList.update ''reconstruction_loss'' (Obj (dict_of_zip types rs))
                                 (AList.update ''kl_loss'' (Num kl) (train ent)))\<rparr>) (history res)\<rparr>)"
  by (auto simp: log_train_def set_train_Inr set_train_Inl update_conv' split: sum.splits)

lemma log_valid_Inr:
  "log_valid types e kl rs sv m res = Inr res' \<longleftrightarrow>
     (\<exists>ent. map_of (history res) e = Some ent
        \<and> res' = res\<lparr>history := AList.update e
              (ent\<lparr>valid := AList.update ''metric'' (Num m)
                              (AList.update ''survival_loss'' (Num sv)
                               (AList.update ''reconstruction_loss'' (Obj (dict_of_zip types rs))
                                 (AList.update ''kl_loss'' (Num kl) (valid ent))))\<rparr>) (history res)\<rparr>)"
  by (auto simp: log_valid_def set_valid_Inr set_valid_Inl update_conv' split: sum.splits)


lemma py_sum_foldl: "foldl (+) 0 xs = py_sum xs"
  by (simp add: py_sum_def)

lemma train_step_Return:
  assumes "train_step env trainloader epoch s = Return v s'"
  shows "\<exists>its ent. calls s' = calls s @ (Train epoch, ModelTrain) # (Train epoch, ZeroGrad)
                                   # map (\<lambda>it. (Train epoch, TrainIter it)) its
      \<and> length its = length (fst (trainloader (rng s)))
      \<and> (\<forall>it\<in>set its.
            tr_backward it = tr_kl_loss it + tr_survival_loss it + py_sum (tr_reconstruction_losses it)
          \<and> \<not> isnan_any env (tr_kl_loss it)
          \<and> \<not> list_ex (isnan_any env) (tr_reconstruction_losses it)
          \<and> \<not> isnan_any env (tr_survival_loss it)
          \<and> length (tr_reconstruction_losses it) = length (input_types_vae env))
      \<and> map_of (history (results s)) epoch = Some ent
      \<and> v = (py_sum [item env (tr_kl_loss it). it \<leftarrow> its],
             [sum_at (item env) tr_reconstruction_losses its m. m \<leftarrow> [0..<length (input_types_vae env)]],
             py_sum [item env (tr_survival_loss it). it \<leftarrow> its])
      \<and> results s' = (results s)\<lparr>history := AList.update epoch
              (ent\<lparr>train := AList.update ''survival_loss'' (Num (snd (snd v)))
                               (AList.update ''reconstruction_loss''
                                  (Obj (dict_of_zip (input_types_vae env) (fst (snd v))))
                                 (AList.update ''kl_loss'' (Num (fst v)) (train ent)))\<rparr>)
              (history (results s))\<rparr>
      \<and> files s' = files s \<and> grad_enabled s' = grad_enabled s"
proof -
  obtain batches r where ld: "trainloader (rng s) = (batches, r)" by (cases "trainloader (rng s)")
  let ?n = "length (input_types_vae env)"
  let ?s2 = "s\<lparr>training := True, calls := calls s @ [(Train epoch, ModelTrain)],
               grad := None, calls := (calls s @ [(Train epoch, ModelTrain)]) @ [(Train epoch, ZeroGrad)],
               rng := r\<rparr>"
  from assms ld obtain kl rs sv s3 res where
    loop: "train_loop env epoch batches (0, [0. _ \<leftarrow> [0..<?n]], 0) ?s2 = Return (kl, rs, sv) s3"
    and lg: "log_train (input_types_vae env) epoch kl rs sv (results s3) = Inr res"
    and v: "v = (kl, rs, sv)" and s': "s' = s3\<lparr>results := res\<rparr>"
    by (auto simp: train_step_def Let_def split: outcome.splits sum.splits prod.splits)
  from train_loop_Return[OF loop] obtain its where
    c: "calls s3 = calls ?s2 @ map (\<lambda>it. (Train epoch, TrainIter it)) its"
    and len: "length its = length batches"
    and kl: "kl = foldl (+) 0 (map (\<lambda>it. item env (tr_kl_loss it)) its)"
    and sv: "sv = foldl (+) 0 (map (\<lambda>it. item env (tr_survival_loss it)) its)"
    and rs: "rs = foldl (\<lambda>acc it. [i + item env j. (i, j) \<leftarrow> zip acc (tr_reconstruction_losses it)])
                   [0. _ \<leftarrow> [0..<?n]] its"
    and ok: "\<forall>it\<in>set its.
            tr_backward it = tr_kl_loss it + tr_survival_loss it + py_sum (tr_reconstruction_losses it)
          \<and> \<not> isnan_any env (tr_kl_loss it)
          \<and> \<not> list_ex (isnan_any env) (tr_reconstruction_losses it)
          \<and> \<not> isnan_any env (tr_survival_loss it)
          \<and> length (tr_reconstruction_losses it) = length (input_types_vae env)"
    by blast
  have rs': "rs = [sum_at (item env) tr_reconstruction_losses its m. m \<leftarrow> [0..<?n]]"
    unfolding rs
    by (subst foldl_zip_add[where n = ?n]) (use ok in \<open>auto simp: sum_at_def py_sum_def\<close>)
  have fr: "results s3 = results s" "files s3 = files s" "grad_enabled s3 = grad_enabled s"
    using train_loop_frame[of env epoch batches "(0, [0. _ \<leftarrow> [0..<?n]], 0)" ?s2] loop by simp_all
  from lg[unfolded log_train_Inr] fr obtain ent where
    ent: "map_of (history (results s)) epoch = Some ent"
    and res: "res = (results s)\<lparr>history := AList.update epoch
              (ent\<lparr>train := AList.update ''survival_loss'' (Num sv)
                               (AList.update ''reconstruction_loss'' (Obj (dict_of_zip (input_types_vae env) rs))
                                 (AList.update ''kl_loss'' (Num kl) (train ent)))\<rparr>) (history (results s))\<rparr>"
    by auto
  show ?thesis
    apply (rule exI[of _ its], rule exI[of _ ent])
    using c len ok ent v res s' fr ld kl sv rs' by (simp add: py_sum_foldl)
qed


lemma valid_forward_Return:
  assumes "valid_forward env data s = Return (mode, est, kl, recs, surv) s'"
  shows "mode = grad_enabled s
      \<and> \<not> isnan_any env kl \<and> \<not> list_ex (isnan_any env) recs \<and> \<not> isnan_any env surv
      \<and> length recs = length (input_types_vae env)"
  using assms
  apply (simp add: valid_forward_def Let_def split: sum.splits prod.splits)
  apply (auto dest!: batch_losses_Inr getitems_length simp: reconstruction_loss_funcs_def)
  done

lemma valid_forward_frame:
  "weights (state_of (valid_forward env data s)) = weights s
   \<and> optimizer (state_of (valid_forward env data s)) = optimizer s
   \<and> grad (state_of (valid_forward env data s)) = grad s
   \<and> results (state_of (valid_forward env data s)) = results s
   \<and> files (state_of (valid_forward env data s)) = files s
   \<and> grad_enabled (state_of (valid_forward env data s)) = grad_enabled s
   \<and> training (state_of (valid_forward env data s)) = training s
   \<and> calls (state_of (valid_forward env data s)) = calls s"
  by (simp add: valid_forward_def Let_def split: sum.splits prod.splits)

lemma no_grad_frame:
  assumes "\<And>s. weights (state_of (body s)) = weights s
   \<and> optimizer (state_of (body s)) = optimizer s
   \<and> grad (state_of (body s)) = grad s
   \<and> results (state_of (body s)) = results s
   \<and> files (state_of (body s)) = files s
   \<and> training (state_of (body s)) = training s
   \<and> calls (state_of (body s)) = calls s"
  shows "weights (state_of (no_grad body s)) = weights s
   \<and> optimizer (state_of (no_grad body s)) = optimizer s
   \<and> grad (state_of (no_grad body s)) = grad s
   \<and> results (state_of (no_grad body s)) = results s
   \<and> files (state_of (no_grad body s)) = files s
   \<and> grad_enabled (state_of (no_grad body s)) = grad_enabled s
   \<and> training (state_of (no_grad body s)) = training s
   \<and> calls (state_of (no_grad body s)) = calls s"
  using assms[of "s\<lparr>grad_enabled := False\<rparr>"]
  by (cases "body (s\<lparr>grad_enabled := False\<rparr>)") (simp_all add: no_grad_def)

lemma no_grad_valid_forward_frame:
  "weights (state_of (no_grad (valid_forward env data) s)) = weights s
   \<and> optimizer (state_of (no_grad (valid_forward env data) s)) = optimizer s
   \<and> grad (state_of (no_grad (valid_forward env data) s)) = grad s
   \<and> results (state_of (no_grad (valid_forward env data) s)) = results s
   \<and> files (state_of (no_grad (valid_forward env data) s)) = files s
   \<and> grad_enabled (state_of (no_grad (valid_forward env data) s)) = grad_enabled s
   \<and> training (state_of (no_grad (valid_forward env data) s)) = training s
   \<and> calls (state_of (no_grad (valid_forward env data) s)) = calls s"
  by (rule no_grad_frame) (simp add: valid_forward_frame)

lemma no_grad_valid_forward_Return:
  assumes "no_grad (valid_forward env data) s = Return (mode, est, kl, recs, surv) s'"
  shows "\<not> mode
      \<and> \<not> isnan_any env kl \<and> \<not> list_ex (isnan_any env) recs \<and> \<not> isnan_any env surv
      \<and> length recs = length (input_types_vae env)"
proof -
  from assms obtain s1 where
    "valid_forward env data (s\<lparr>grad_enabled := False\<rparr>) = Return (mode, est, kl, recs, surv) s1"
    by (auto simp: no_grad_def split: outcome.splits)
  from valid_forward_Return[OF this] show ?thesis by simp
qed

lemma valid_iter_frame:
  "weights (state_of (valid_iter env epoch data acc s)) = weights s
   \<and> optimizer (state_of (valid_iter env epoch data acc s)) = optimizer s
   \<and> grad (state_of (valid_iter env epoch data acc s)) = grad s
   \<and> results (state_of (valid_iter env epoch data acc s)) = results s
   \<and> files (state_of (valid_iter env epoch data acc s)) = files s
   \<and> grad_enabled (state_of (valid_iter env epoch data acc s)) = grad_enabled s
   \<and> training (state_of (valid_iter env epoch data acc s)) = training s"
  using no_grad_valid_forward_frame[of env data s]
  by (cases "no_grad (valid_forward env data) s")
     (auto simp: valid_iter_def Let_def split: sum.splits prod.splits)

lemma valid_iter_Raise:
  "valid_iter env epoch data acc s = Raise e s' \<Longrightarrow> calls s' = calls s"
  using no_grad_valid_forward_frame[of env data s]
  by (cases "no_grad (valid_forward env data) s")
     (auto simp: valid_iter_def Let_def split: sum.splits prod.splits)

lemma valid_iter_Return:
  assumes "valid_iter env epoch data (eis, ets, ests, kl, recs, surv) s = Return acc' s'"
  shows "\<exists>it. calls s' = calls s @ [(Valid epoch, ValidIter it)]
      \<and> acc' = (eis @ [va_event_indicator it], ets @ [va_event_time it], ests @ [va_estimate it],
                kl + item env (va_kl_loss it),
                [i + item env j. (i, j) \<leftarrow> zip recs (va_reconstruction_losses it)],
                surv + item env (va_survival_loss it))
      \<and> \<not> va_grad_enabled it
      \<and> data ''event_indicator'' = Some (va_event_indicator it)
      \<and> data ''event_time'' = Some (va_event_time it)
      \<and> \<not> isnan_any env (va_kl_loss it)
      \<and> \<not> list_ex (isnan_any env) (va_reconstruction_losses it)
      \<and> \<not> isnan_any env (va_survival_loss it)
      \<and> length (va_reconstruction_losses it) = length (input_types_vae env)"
proof -
  from assms obtain ei et mode est bkl brecs bsurv s1 where
    ei: "data ''event_indicator'' = Some ei" and et: "data ''event_time'' = Some et"
    and fw: "no_grad (valid_forward env data) s = Return (mode, est, bkl, brecs, bsurv) s1"
    and s': "s' = s1\<lparr>calls := calls s1 @ [(Valid epoch, ValidIter \<lparr>
                    va_grad_enabled = mode, va_event_indicator = ei, va_event_time = et,
                    va_estimate = est, va_kl_loss = bkl, va_reconstruction_losses = brecs,
                    va_survival_loss = bsurv\<rparr>)]\<rparr>"
    and acc': "acc' = (eis @ [ei], ets @ [et], ests @ [est], kl + item env bkl,
                 [i + item env j. (i, j) \<leftarrow> zip recs brecs], surv + item env bsurv)"
    by (auto simp: valid_iter_def Let_def getitem_def split: sum.splits prod.splits outcome.splits option.splits)
  from no_grad_valid_forward_frame[of env data s] fw have c: "calls s1 = calls s" by simp
  from no_grad_valid_forward_Return[OF fw] c s' acc' ei et show ?thesis
    by (intro exI[of _ "\<lparr>va_grad_enabled = mode, va_event_indicator = ei, va_event_time = et,
                    va_estimate = est, va_kl_loss = bkl, va_reconstruction_losses = brecs,
                    va_survival_loss = bsurv\<rparr>"]) simp
qed


lemma valid_loop_frame:
  "weights (state_of (valid_loop env epoch batches acc s)) = weights s
   \<and> optimizer (state_of (valid_loop env epoch batches acc s)) = optimizer s
   \<and> grad (state_of (valid_loop env epoch batches acc s)) = grad s
   \<and> results (state_of (valid_loop env epoch batches acc s)) = results s
   \<and> files (state_of (valid_loop env epoch batches acc s)) = files s
   \<and> grad_enabled (state_of (valid_loop env epoch batches acc s)) = grad_enabled s
   \<and> training (state_of (valid_loop env epoch batches acc s)) = training s"
proof (induction batches arbitrary: acc s)
  case Nil
  show ?case by simp
next
  case (Cons data rest)
  show ?case
  proof (cases "valid_iter env epoch data acc s")
    case (Return acc' s')
    with Cons[of acc' s'] valid_iter_frame[of env epoch data acc s] show ?thesis by simp
  next
    case (Raise e s')
    with valid_iter_frame[of env epoch data acc s] show ?thesis by simp
  qed
qed

lemma valid_loop_Return:
  assumes "valid_loop env epoch batches (eis, ets, ests, kl, recs, surv) s
           = Return (eis', ets', ests', kl', recs', surv') s'"
  shows "\<exists>its. calls s' = calls s @ map (\<lambda>it. (Valid epoch, ValidIter it)) its
      \<and> length its = length batches
      \<and> eis' = eis @ map va_event_indicator its
      \<and> ets' = ets @ map va_event_time its
      \<and> ests' = ests @ map va_estimate its
      \<and> map (\<lambda>data. data ''event_indicator'') batches = map (\<lambda>it. Some (va_event_indicator it)) its
      \<and> map (\<lambda>data. data ''event_time'') batches = map (\<lambda>it. Some (va_event_time it)) its
      \<and> kl' = foldl (+) kl (map (\<lambda>it. item env (va_kl_loss it)) its)
      \<and> surv' = foldl (+) surv (map (\<lambda>it. item env (va_survival_loss it)) its)
      \<and> recs' = foldl (\<lambda>acc it. [i + item env j. (i, j) \<leftarrow> zip acc (va_reconstruction_losses it)]) recs its
      \<and> (\<forall>it\<in>set its. valid_iteration_ok env it)"
  using assms
proof (induction batches arbitrary: eis ets ests kl recs surv s)
  case Nil
  then show ?case by simp
next
  case (Cons data rest)
  from Cons.prems obtain acc1 s1 where
    it: "valid_iter env epoch data (eis, ets, ests, kl, recs, surv) s = Return acc1 s1"
    and rest: "valid_loop env epoch rest acc1 s1 = Return (eis', ets', ests', kl', recs', surv') s'"
    by (auto split: outcome.splits)
  from valid_iter_Return[OF it] obtain it0 where
    c: "calls s1 = calls s @ [(Valid epoch, ValidIter it0)]"
    and a: "acc1 = (eis @ [va_event_indicator it0], ets @ [va_event_time it0], ests @ [va_estimate it0],
                kl + item env (va_kl_loss it0),
                [i + item env j. (i, j) \<leftarrow> zip recs (va_reconstruction_losses it0)],
                surv + item env (va_survival_loss it0))"
    and d: "data ''event_indicator'' = Some (va_event_indicator it0)"
           "data ''event_time'' = Some (va_event_time it0)"
    and g: "valid_iteration_ok env it0"
    unfolding valid_iteration_ok_def by blast
  from Cons.IH[OF rest[unfolded a]] obtain its where
    r: "calls s' = calls s1 @ map (\<lambda>it. (Valid epoch, ValidIter it)) its"
      "length its = length rest"
      "eis' = (eis @ [va_event_indicator it0]) @ map va_event_indicator its"
      "ets' = (ets @ [va_event_time it0]) @ map va_event_time its"
      "ests' = (ests @ [va_estimate it0]) @ map va_estimate its"
      "map (\<lambda>data. data ''event_indicator'') rest = map (\<lambda>it. Some (va_event_indicator it)) its"
      "map (\<lambda>data. data ''event_time'') rest = map (\<lambda>it. Some (va_event_time it)) its"
      "kl' = foldl (+) (kl + item env (va_kl_loss it0)) (map (\<lambda>it. item env (va_kl_loss it)) its)"
      "surv' = foldl (+) (surv + item env (va_survival_loss it0)) (map (\<lambda>it. item env (va_survival_loss it)) its)"
      "recs' = foldl (\<lambda>acc it. [i + item env j. (i, j) \<leftarrow> zip acc (va_reconstruction_losses it)])
                 [i + item env j. (i, j) \<leftarrow> zip recs (va_reconstruction_losses it0)] its"
      "\<forall>it\<in>set its. valid_iteration_ok env it"
    by blast
  show ?case
    apply (rule exI[of _ "it0 # its"])
    using c r g d by simp
qed


lemma train_loop_any:
  "\<exists>its. calls (state_of (train_loop env epoch batches acc s))
           = calls s @ map (\<lambda>it. (Train epoch, TrainIter it)) its
      \<and> (\<forall>it\<in>set its. train_iteration_ok env it)
      \<and> map tr_step its = grad_seq (grad s) (map (\<lambda>it. backward env (tr_backward it)) its)"
proof (induction batches arbitrary: acc s)
  case Nil
  show ?case by simp
next
  case (Cons data rest)
  show ?case
  proof (cases "train_iter env epoch data acc s")
    case (Raise e s1)
    with train_iter_Raise[OF Raise] show ?thesis by simp
  next
    case (Return acc1 s1)
    obtain kl recs surv where acc: "acc = (kl, recs, surv)" by (cases acc)
    from train_iter_Return[OF Return[unfolded acc]] obtain it0 where
      c: "calls s1 = calls s @ [(Train epoch, TrainIter it0)]"
      and ok: "train_iteration_ok env it0"
      and g: "tr_step it0 = accumulate (grad s) (backward env (tr_backward it0))" "grad s1 = tr_step it0"
      unfolding train_iteration_ok_def by blast
    from Cons[of acc1 s1] obtain its where
      r: "calls (state_of (train_loop env epoch rest acc1 s1))
           = calls s1 @ map (\<lambda>it. (Train epoch, TrainIter it)) its"
         "\<forall>it\<in>set its. train_iteration_ok env it"
         "map tr_step its = grad_seq (grad s1) (map (\<lambda>it. backward env (tr_backward it)) its)"
      by blast
    show ?thesis
      apply (rule exI[of _ "it0 # its"])
      using Return c ok g r by simp
  qed
qed

lemma train_step_any:
  "\<exists>its. calls (state_of (train_step env trainloader epoch s))
           = calls s @ (Train epoch, ModelTrain) # (Train epoch, ZeroGrad)
               # map (\<lambda>it. (Train epoch, TrainIter it)) its
      \<and> (\<forall>it\<in>set its. train_iteration_ok env it)
      \<and> map tr_step its = grad_seq None (map (\<lambda>it. backward env (tr_backward it)) its)"
proof -
  obtain batches r where ld: "trainloader (rng s) = (batches, r)" by (cases "trainloader (rng s)")
  let ?n = "length (input_types_vae env)"
  let ?s2 = "s\<lparr>training := True, calls := calls s @ [(Train epoch, ModelTrain)],
               grad := None, calls := (calls s @ [(Train epoch, ModelTrain)]) @ [(Train epoch, ZeroGrad)],
               rng := r\<rparr>"
  let ?loop = "train_loop env epoch batches (0, [0. _ \<leftarrow> [0..<?n]], 0) ?s2"
  have st: "calls (state_of (train_step env trainloader epoch s)) = calls (state_of ?loop)"
    using ld by (cases ?loop) (auto simp: train_step_def Let_def split: sum.splits prod.splits)
  from train_loop_any[of env epoch batches "(0, [0. _ \<leftarrow> [0..<?n]], 0)" ?s2] st
  show ?thesis by simp
qed


lemma valid_loop_any:
  "\<exists>its. calls (state_of (valid_loop env epoch batches acc s))
           = calls s @ map (\<lambda>it. (Valid epoch, ValidIter it)) its
      \<and> (\<forall>it\<in>set its. valid_iteration_ok env it)"
proof (induction batches arbitrary: acc s)
  case Nil
  show ?case by simp
next
  case (Cons data rest)
  show ?case
  proof (cases "valid_iter env epoch data acc s")
    case (Raise e s1)
    with valid_iter_Raise[OF Raise] show ?thesis by simp
  next
    case (Return acc1 s1)
    obtain eis ets ests kl recs surv where acc: "acc = (eis, ets, ests, kl, recs, surv)" by (cases acc)
    from valid_iter_Return[OF Return[unfolded acc]] obtain it0 where
      c: "calls s1 = calls s @ [(Valid epoch, ValidIter it0)]"
      and ok: "valid_iteration_ok env it0"
      unfolding valid_iteration_ok_def by blast
    from Cons[of acc1 s1] obtain its where
      r: "calls (state_of (valid_loop env epoch rest acc1 s1))
           = calls s1 @ map (\<lambda>it. (Valid epoch, ValidIter it)) its"
         "\<forall>it\<in>set its. valid_iteration_ok env it"
      by blast
    show ?thesis
      apply (rule exI[of _ "it0 # its"])
      using Return c ok r by simp
  qed
qed


lemma torch_cat_Inr: "torch_cat env xs = Inr y \<longleftrightarrow> xs \<noteq> [] \<and> y = cat env xs"
  by (auto simp: torch_cat_def)

lemma valid_step_frame:
  "weights (state_of (valid_step env validloader epoch s)) = weights s
   \<and> optimizer (state_of (valid_step env validloader epoch s)) = optimizer s
   \<and> grad (state_of (valid_step env validloader epoch s)) = grad s
   \<and> files (state_of (valid_step env validloader epoch s)) = files s
   \<and> grad_enabled (state_of (valid_step env validloader epoch s)) = grad_enabled s
   \<and> (\<not> returns (valid_step env validloader epoch s) \<longrightarrow>
        results (state_of (valid_step env validloader epoch s)) = results s)"
proof -
  obtain batches r where ld: "validloader (rng s) = (batches, r)" by (cases "validloader (rng s)")
  let ?n = "length (input_types_vae env)"
  let ?s1 = "s\<lparr>training := False, calls := calls s @ [(Valid epoch, ModelEval)], rng := r\<rparr>"
  let ?loop = "valid_loop env epoch batches ([], [], [], 0, [0. _ \<leftarrow> [0..<?n]], 0) ?s1"
  from valid_loop_frame[of env epoch batches "([], [], [], 0, [0. _ \<leftarrow> [0..<?n]], 0)" ?s1] ld
  show ?thesis
    by (cases ?loop) (auto simp: valid_step_def Let_def split: sum.splits prod.splits)
qed

lemma valid_step_any:
  "\<exists>its tail. calls (state_of (valid_step env validloader epoch s))
           = calls s @ (Valid epoch, ModelEval) # map (\<lambda>it. (Valid epoch, ValidIter it)) its @ tail
      \<and> (\<forall>it\<in>set its. valid_iteration_ok env it)
      \<and> (tail = [] \<or> (\<exists>ei et est m. tail = [(Valid epoch, Concordance ei et est m)]))"
proof -
  obtain batches r where ld: "validloader (rng s) = (batches, r)" by (cases "validloader (rng s)")
  let ?n = "length (input_types_vae env)"
  let ?s1 = "s\<lparr>training := False, calls := calls s @ [(Valid epoch, ModelEval)], rng := r\<rparr>"
  let ?loop = "valid_loop env epoch batches ([], [], [], 0, [0. _ \<leftarrow> [0..<?n]], 0) ?s1"
  from valid_loop_any[of env epoch batches "([], [], [], 0, [0. _ \<leftarrow> [0..<?n]], 0)" ?s1] obtain its where
    c: "calls (state_of ?loop) = calls ?s1 @ map (\<lambda>it. (Valid epoch, ValidIter it)) its"
    and ok: "\<forall>it\<in>set its. valid_iteration_ok env it" by blast
  have "calls (state_of (valid_step env validloader epoch s)) = calls (state_of ?loop)
        \<or> (\<exists>ei et est m. calls (state_of (valid_step env validloader epoch s))
              = calls (state_of ?loop) @ [(Valid epoch, Concordance ei et est m)])"
    using ld by (cases ?loop) (auto simp: valid_step_def Let_def split: sum.splits prod.splits)
  then show ?thesis
  proof
    assume "calls (state_of (valid_step env validloader epoch s)) = calls (state_of ?loop)"
    with c ok show ?thesis by (intro exI[of _ its] exI[of _ "[]"]) simp
  next
    assume "\<exists>ei et est m. calls (state_of (valid_step env validloader epoch s))
              = calls (state_of ?loop) @ [(Valid epoch, Concordance ei et est m)]"
    then obtain ei et est m where "calls (state_of (valid_step env validloader epoch s))
              = calls (state_of ?loop) @ [(Valid epoch, Concordance ei et est m)]" by blast
    with c ok show ?thesis
      by (intro exI[of _ its] exI[of _ "[(Valid epoch, Concordance ei et est m)]"]) simp
  qed
qed

lemma valid_step_Return:
  assumes "valid_step env validloader epoch s = Return v s'"
  shows "\<exists>its ent ei et est m.
        calls s' = calls s @ (Valid epoch, ModelEval) # map (\<lambda>it. (Valid epoch, ValidIter it)) its
                     @ [(Valid epoch, Concordance ei et est m)]
      \<and> its \<noteq> []
      \<and> length its = length (fst (validloader (rng s)))
      \<and> map (\<lambda>data. data ''event_indicator'') (fst (validloader (rng s)))
          = map (\<lambda>it. Some (va_event_indicator it)) its
      \<and> map (\<lambda>data. data ''event_time'') (fst (validloader (rng s)))
          = map (\<lambda>it. Some (va_event_time it)) its
      \<and> ei = cat env (map va_event_indicator its)
      \<and> et = cat env (map va_event_time its)
      \<and> est = cat env (map va_estimate its)
      \<and> m = ConcordanceIndex env ei et est
      \<and> (\<forall>it\<in>set its. valid_iteration_ok env it)
      \<and> map_of (history (results s)) epoch = Some ent
      \<and> v = (py_sum [item env (va_kl_loss it). it \<leftarrow> its],
             [sum_at (item env) va_reconstruction_losses its m. m \<leftarrow> [0..<length (input_types_vae env)]],
             py_sum [item env (va_survival_loss it). it \<leftarrow> its], m)
      \<and> results s' = (results s)\<lparr>history := AList.update epoch
              (ent\<lparr>valid := AList.update ''metric'' (Num m)
                              (AList.update ''survival_loss'' (Num (fst (snd (snd v))))
                               (AList.update ''reconstruction_loss''
                                  (Obj (dict_of_zip (input_types_vae env) (fst (snd v))))
                                 (AList.update ''kl_loss'' (Num (fst v)) (valid ent))))\<rparr>)
              (history (results s))\<rparr>"
proof -
  obtain batches r where ld: "validloader (rng s) = (batches, r)" by (cases "validloader (rng s)")
  let ?n = "length (input_types_vae env)"
  let ?s1 = "s\<lparr>training := False, calls := calls s @ [(Valid epoch, ModelEval)], rng := r\<rparr>"
  from assms ld obtain eis ets ests kl rs sv s2 ei et est res where
    loop: "valid_loop env epoch batches ([], [], [], 0, [0. _ \<leftarrow> [0..<?n]], 0) ?s1
           = Return (eis, ets, ests, kl, rs, sv) s2"
    and cats: "torch_cat env eis = Inr ei" "torch_cat env ets = Inr et" "torch_cat env ests = Inr est"
    and lg: "log_valid (input_types_vae env) epoch kl rs sv (ConcordanceIndex env ei et est) (results s2) = Inr res"
    and v: "v = (kl, rs, sv, ConcordanceIndex env ei et est)"
    and s': "s' = s2\<lparr>calls := calls s2 @ [(Valid epoch, Concordance ei et est (ConcordanceIndex env ei et est))],
                    results := res\<rparr>"
    by (auto simp: valid_step_def Let_def split: outcome.splits sum.splits prod.splits)
  from valid_loop_Return[OF loop] obtain its where
    c: "calls s2 = calls ?s1 @ map (\<lambda>it. (Valid epoch, ValidIter it)) its"
    and len: "length its = length batches"
    and acc: "eis = map va_event_indicator its" "ets = map va_event_time its" "ests = map va_estimate its"
    and d: "map (\<lambda>data. data ''event_indicator'') batches = map (\<lambda>it. Some (va_event_indicator it)) its"
           "map (\<lambda>data. data ''event_time'') batches = map (\<lambda>it. Some (va_event_time it)) its"
    and kl: "kl = foldl (+) 0 (map (\<lambda>it. item env (va_kl_loss it)) its)"
    and sv: "sv = foldl (+) 0 (map (\<lambda>it. item env (va_survival_loss it)) its)"
    and rs: "rs = foldl (\<lambda>acc it. [i + item env j. (i, j) \<leftarrow> zip acc (va_reconstruction_losses it)])
                   [0. _ \<leftarrow> [0..<?n]] its"
    and ok: "\<forall>it\<in>set its. valid_iteration_ok env it"
    by auto
  have rs': "rs = [sum_at (item env) va_reconstruction_losses its m. m \<leftarrow> [0..<?n]]"
    unfolding rs
    by (subst foldl_zip_add[where n = ?n]) (use ok in \<open>auto simp: sum_at_def py_sum_def valid_iteration_ok_def\<close>)
  have fr: "results s2 = results s"
    using valid_loop_frame[of env epoch batches "([], [], [], 0, [0. _ \<leftarrow> [0..<?n]], 0)" ?s1] loop by simp
  from lg[unfolded log_valid_Inr] fr obtain ent where
    ent: "map_of (history (results s)) epoch = Some ent"
    and res: "res = (results s)\<lparr>history := AList.update epoch
              (ent\<lparr>valid := AList.update ''metric'' (Num (ConcordanceIndex env ei et est))
                              (AList.update ''survival_loss'' (Num sv)
                               (AList.update ''reconstruction_loss'' (Obj (dict_of_zip (input_types_vae env) rs))
                                 (AList.update ''kl_loss'' (Num kl) (valid ent))))\<rparr>) (history (results s))\<rparr>"
    by auto
  from cats acc have ne: "its \<noteq> []" and cv: "ei = cat env (map va_event_indicator its)"
    "et = cat env (map va_event_time its)" "est = cat env (map va_estimate its)"
    by (auto simp: torch_cat_Inr)
  show ?thesis
    apply (rule exI[of _ its], rule exI[of _ ent], rule exI[of _ ei], rule exI[of _ et],
           rule exI[of _ est], rule exI[of _ "ConcordanceIndex env ei et est"])
    using c len ok ent v res s' fr ld kl sv rs' ne cv d by (simp add: py_sum_foldl)
qed


lemma train_iters_map_Train [simp]:
  "train_iters e (map (\<lambda>it. (Train e', TrainIter it)) its) = (if e' = e then its else [])"
  by (induction its) auto

lemma train_iters_map_Valid [simp]:
  "train_iters e (map (\<lambda>it. (Valid e', ValidIter it)) its) = []"
  by (induction its) auto

lemma valid_iters_map_Train [simp]:
  "valid_iters e (map (\<lambda>it. (Train e', TrainIter it)) its) = []"
  by (induction its) auto

lemma valid_iters_map_Valid [simp]:
  "valid_iters e (map (\<lambda>it. (Valid e', ValidIter it)) its) = (if e' = e then its else [])"
  by (induction its) auto

lemma concordance_calls_map_Train [simp]:
  "concordance_calls e (map (\<lambda>it. (Train e', TrainIter it)) its) = []"
  by (induction its) auto

lemma concordance_calls_map_Valid [simp]:
  "concordance_calls e (map (\<lambda>it. (Valid e', ValidIter it)) its) = []"
  by (induction its) auto

lemma step_order_map_Train [simp]:
  "step_order (map (\<lambda>it. (Train e', TrainIter it)) its) = []"
  by (induction its) auto

lemma step_order_map_Valid [simp]:
  "step_order (map (\<lambda>it. (Valid e', ValidIter it)) its) = []"
  by (induction its) auto

lemma train_iters_other:
  "\<forall>c\<in>set l. fst c \<noteq> Train e \<Longrightarrow> train_iters e l = []"
  by (induction l) (auto split: prod.splits event.splits)

lemma valid_iters_other:
  "\<forall>c\<in>set l. fst c \<noteq> Valid e \<Longrightarrow> valid_iters e l = []"
  by (induction l) (auto split: prod.splits event.splits)

lemma concordance_calls_other:
  "\<forall>c\<in>set l. fst c \<noteq> Valid e \<Longrightarrow> concordance_calls e l = []"
  by (induction l) (auto split: prod.splits event.splits)

lemma epoch_Return:
  assumes t: "train_step env trainloader e
                (s\<lparr>results := (results s)\<lparr>history :=
                       AList.update e \<lparr>train = [], valid = []\<rparr> (history (results s))\<rparr>\<rparr>) = Return vt s2"
    and v: "valid_step env validloader e s2 = Return vv s3"
  shows "\<exists>new ent. calls s3 = calls s @ new
      \<and> (\<forall>c\<in>set new. fst c = Train e \<or> fst c = Valid e)
      \<and> step_order new = [Train e, Valid e]
      \<and> map_of (history (results s3)) = (map_of (history (results s)))(e \<mapsto> ent)
      \<and> epoch_facts env trainloader validloader e new ent
      \<and> r_params (results s3) = r_params (results s)
      \<and> files s3 = files s"
proof -
  let ?s1 = "s\<lparr>results := (results s)\<lparr>history :=
                       AList.update e \<lparr>train = [], valid = []\<rparr> (history (results s))\<rparr>\<rparr>"
  from train_step_Return[OF t] obtain tits where
    tc: "calls s2 = calls s @ (Train e, ModelTrain) # (Train e, ZeroGrad)
                                   # map (\<lambda>it. (Train e, TrainIter it)) tits"
    and tlen: "length tits = length (fst (trainloader (rng s)))"
    and tok: "\<forall>it\<in>set tits. train_iteration_ok env it"
    and tres: "results s2 = (results ?s1)\<lparr>history := AList.update e
              \<lparr>train = train_entry env tits, valid = []\<rparr> (history (results ?s1))\<rparr>"
    and tf: "files s2 = files s"
    by (auto simp: update_conv' train_entry_def train_iteration_ok_def)
  from valid_step_Return[OF v] obtain vits where
    vc: "calls s3 = calls s2 @ (Valid e, ModelEval) # map (\<lambda>it. (Valid e, ValidIter it)) vits
                     @ [(Valid e, Concordance (cat env (map va_event_indicator vits))
                           (cat env (map va_event_time vits)) (cat env (map va_estimate vits))
                           (ConcordanceIndex env (cat env (map va_event_indicator vits))
                           (cat env (map va_event_time vits)) (cat env (map va_estimate vits))))]"
    and vne: "vits \<noteq> []"
    and vd: "map (\<lambda>data. data ''event_indicator'') (fst (validloader (rng s2)))
          = map (\<lambda>it. Some (va_event_indicator it)) vits"
      "map (\<lambda>data. data ''event_time'') (fst (validloader (rng s2)))
          = map (\<lambda>it. Some (va_event_time it)) vits"
    and vok: "\<forall>it\<in>set vits. valid_iteration_ok env it"
    and vres: "results s3 = (results s2)\<lparr>history := AList.update e
              \<lparr>train = train_entry env tits,
               valid = valid_entry env vits (ConcordanceIndex env (cat env (map va_event_indicator vits))
                           (cat env (map va_event_time vits)) (cat env (map va_estimate vits)))\<rparr>
              (history (results s2))\<rparr>"
    using tres by (auto simp: update_conv' valid_entry_def)
  from valid_step_frame[of env validloader e s2] v tf have vf: "files s3 = files s" by simp
  let ?new = "(Train e, ModelTrain) # (Train e, ZeroGrad) # map (\<lambda>it. (Train e, TrainIter it)) tits
              @ (Valid e, ModelEval) # map (\<lambda>it. (Valid e, ValidIter it)) vits
                     @ [(Valid e, Concordance (cat env (map va_event_indicator vits))
                           (cat env (map va_event_time vits)) (cat env (map va_estimate vits))
                           (ConcordanceIndex env (cat env (map va_event_indicator vits))
                           (cat env (map va_event_time vits)) (cat env (map va_estimate vits))))]"
  let ?ent = "\<lparr>train = train_entry env tits,
               valid = valid_entry env vits (ConcordanceIndex env (cat env (map va_event_indicator vits))
                           (cat env (map va_event_time vits)) (cat env (map va_estimate vits)))\<rparr>"
  have ti: "train_iters e ?new = tits" and vi: "valid_iters e ?new = vits"
    and cc: "concordance_calls e ?new = [(cat env (map va_event_indicator vits),
                           cat env (map va_event_time vits), cat env (map va_estimate vits),
                           ConcordanceIndex env (cat env (map va_event_indicator vits))
                           (cat env (map va_event_time vits)) (cat env (map va_estimate vits)))]"
    and so: "step_order ?new = [Train e, Valid e]"
    by (simp_all add: train_iters_append valid_iters_append concordance_calls_append step_order_append)
  have ef: "epoch_facts env trainloader validloader e ?new ?ent"
    unfolding epoch_facts_def ti vi cc
    using vne tlen vd tok vok by auto
  show ?thesis
    apply (rule exI[of _ ?new], rule exI[of _ ?ent])
    apply (intro conjI)
    subgoal using tc vc by simp
    subgoal by auto
    subgoal by (rule so)
    subgoal using tres vres by (simp add: update_conv')
    subgoal by (rule ef)
    subgoal using tres vres by simp
    subgoal by (rule vf)
    done
qed


lemma epoch_facts_cong:
  assumes "train_iters e new = train_iters e new'" "valid_iters e new = valid_iters e new'"
    "concordance_calls e new = concordance_calls e new'"
  shows "epoch_facts env trainloader validloader e new ent
         = epoch_facts env trainloader validloader e new' ent"
  unfolding epoch_facts_def assms ..

lemma fit_epochs_Return:
  assumes "fit_epochs env trainloader validloader es s = Return u s'"
    and "distinct es" and "\<forall>e\<in>set es. map_of (history (results s)) e = None"
  shows "\<exists>new. calls s' = calls s @ new
      \<and> (\<forall>c\<in>set new. fst c \<in> Train ` set es \<union> Valid ` set es)
      \<and> step_order new = concat (map (\<lambda>e. [Train e, Valid e]) es)
      \<and> (\<forall>e\<in>set es. \<exists>ent. map_of (history (results s')) e = Some ent
             \<and> epoch_facts env trainloader validloader e new ent)
      \<and> (\<forall>e. e \<notin> set es \<longrightarrow> map_of (history (results s')) e = map_of (history (results s)) e)
      \<and> r_params (results s') = r_params (results s)
      \<and> files s' = files s"
  using assms
proof (induction es arbitrary: s)
  case Nil
  then show ?case by simp
next
  case (Cons e rest)
  let ?s1 = "s\<lparr>results := (results s)\<lparr>history :=
                       AList.update e \<lparr>train = [], valid = []\<rparr> (history (results s))\<rparr>\<rparr>"
  from Cons.prems(3) have fresh: "map_of (history (results s)) e = None" by simp
  from Cons.prems(1) fresh obtain vt s2 vv s3 where
    t: "train_step env trainloader e ?s1 = Return vt s2"
    and v: "valid_step env validloader e s2 = Return vv s3"
    and r: "fit_epochs env trainloader validloader rest s3 = Return u s'"
    by (auto simp: Let_def split: outcome.splits)
  from epoch_Return[OF t v] obtain new1 ent where
    c1: "calls s3 = calls s @ new1"
    and sc1: "\<forall>c\<in>set new1. fst c = Train e \<or> fst c = Valid e"
    and so1: "step_order new1 = [Train e, Valid e]"
    and h1: "map_of (history (results s3)) = (map_of (history (results s)))(e \<mapsto> ent)"
    and ef1: "epoch_facts env trainloader validloader e new1 ent"
    and p1: "r_params (results s3) = r_params (results s)"
    and f1: "files s3 = files s"
    by blast
  from Cons.prems(2) have d: "distinct rest" and ne: "e \<notin> set rest" by simp_all
  from Cons.prems(3) h1 ne have fresh3: "\<forall>e'\<in>set rest. map_of (history (results s3)) e' = None"
    by auto
  from Cons.IH[OF r d fresh3] obtain new2 where
    c2: "calls s' = calls s3 @ new2"
    and sc2: "\<forall>c\<in>set new2. fst c \<in> Train ` set rest \<union> Valid ` set rest"
    and so2: "step_order new2 = concat (map (\<lambda>e. [Train e, Valid e]) rest)"
    and h2: "\<forall>e'\<in>set rest. \<exists>ent. map_of (history (results s')) e' = Some ent
             \<and> epoch_facts env trainloader validloader e' new2 ent"
    and o2: "\<forall>e'. e' \<notin> set rest \<longrightarrow> map_of (history (results s')) e' = map_of (history (results s3)) e'"
    and p2: "r_params (results s') = r_params (results s3)"
    and f2: "files s' = files s3"
    by blast
  have e_new2: "train_iters e new2 = []" "valid_iters e new2 = []" "concordance_calls e new2 = []"
    using sc2 ne
    by (auto intro!: train_iters_other valid_iters_other concordance_calls_other)
  have e'_new1: "\<And>e'. e' \<in> set rest \<Longrightarrow>
      train_iters e' new1 = [] \<and> valid_iters e' new1 = [] \<and> concordance_calls e' new1 = []"
    using sc1 ne
    by (auto intro!: train_iters_other valid_iters_other concordance_calls_other)
  have for_e: "\<exists>ent. map_of (history (results s')) e = Some ent
             \<and> epoch_facts env trainloader validloader e (new1 @ new2) ent"
  proof -
    have "map_of (history (results s')) e = Some ent" using o2 ne h1 by simp
    moreover have "epoch_facts env trainloader validloader e (new1 @ new2) ent"
      using ef1 e_new2
      by (subst epoch_facts_cong[where new' = new1])
         (simp_all add: train_iters_append valid_iters_append concordance_calls_append)
    ultimately show ?thesis by blast
  qed
  have for_rest: "\<And>e'. e' \<in> set rest \<Longrightarrow> \<exists>ent. map_of (history (results s')) e' = Some ent
             \<and> epoch_facts env trainloader validloader e' (new1 @ new2) ent"
  proof -
    fix e' assume in_rest: "e' \<in> set rest"
    with h2 obtain ent' where m: "map_of (history (results s')) e' = Some ent'"
      and ef: "epoch_facts env trainloader validloader e' new2 ent'" by blast
    have "epoch_facts env trainloader validloader e' (new1 @ new2) ent'"
      using ef e'_new1[OF in_rest]
      by (subst epoch_facts_cong[where new' = new2])
         (simp_all add: train_iters_append valid_iters_append concordance_calls_append)
    with m show "\<exists>ent. map_of (history (results s')) e' = Some ent
             \<and> epoch_facts env trainloader validloader e' (new1 @ new2) ent" by blast
  qed
  show ?case
    apply (rule exI[of _ "new1 @ new2"])
    apply (intro conjI)
    subgoal using c1 c2 by simp
    subgoal using sc1 sc2 by auto
    subgoal using so1 so2 by (simp add: step_order_append)
    subgoal using for_e for_rest by auto
    subgoal using o2 h1 by auto
    subgoal using p1 p2 by simp
    subgoal using f1 f2 by simp
    done
qed


lemma call_ok_simps [simp]:
  "call_ok env (sc, TrainIter it) = train_iteration_ok env it"
  "call_ok env (sc, ValidIter vit) = valid_iteration_ok env vit"
  "call_ok env (sc, ModelTrain)" "call_ok env (sc, ModelEval)" "call_ok env (sc, ZeroGrad)"
  "call_ok env (sc, Concordance ei et est m)" "call_ok env (sc, Makedirs p)" "call_ok env (sc, ParseAll p)"
  by (simp_all add: call_ok_def)




lemma set_py_range: "set (py_range n) = {e. int e < n}"
  by (auto simp: py_range_def)

lemma fit_Return:
  assumes "fit env trainloader validloader params s = Return v s'"
  shows "v = None
      \<and> (\<exists>new. calls s' = calls s @ new
          \<and> step_order new = concat (map (\<lambda>e. [Train e, Valid e]) (py_range (epochs params)))
          \<and> (\<forall>c\<in>set new. fst c \<in> Train ` set (py_range (epochs params)) \<union> Valid ` set (py_range (epochs params)))
          \<and> (\<forall>e\<in>set (py_range (epochs params)). \<exists>ent. map_of (history (results s')) e = Some ent
                 \<and> epoch_facts env trainloader validloader e new ent))
      \<and> (\<forall>e. e \<notin> set (py_range (epochs params)) \<longrightarrow> map_of (history (results s')) e = None)
      \<and> r_params (results s') = [(k, v) \<leftarrow> param_vars params. \<not> startswith_underscore k]
      \<and> files s' = files s @ [(resultsprefix params @ ''.json'', JsonDump (results s'))]"
proof -
  let ?s2 = "s\<lparr>optimizer := adam env (lr params) (weights s),
               results := \<lparr>r_params = [(k, v) \<leftarrow> param_vars params. \<not> startswith_underscore k],
                               history = []\<rparr>\<rparr>"
  from assms obtain u s3 where
    ep: "fit_epochs env trainloader validloader (py_range (epochs params)) ?s2 = Return u s3"
    and v: "v = None"
    and s': "s' = s3\<lparr>files := files s3 @ [(resultsprefix params @ ''.json'', JsonDump (results s3))]\<rparr>"
    by (auto simp: fit_def Let_def split: outcome.splits)
  have d: "distinct (py_range (epochs params))" by (simp add: py_range_def)
  from fit_epochs_Return[OF ep d] obtain new where
    "calls s3 = calls ?s2 @ new"
    "\<forall>c\<in>set new. fst c \<in> Train ` set (py_range (epochs params)) \<union> Valid ` set (py_range (epochs params))"
    "step_order new = concat (map (\<lambda>e. [Train e, Valid e]) (py_range (epochs params)))"
    "\<forall>e\<in>set (py_range (epochs params)). \<exists>ent. map_of (history (results s3)) e = Some ent
             \<and> epoch_facts env trainloader validloader e new ent"
    "\<forall>e. e \<notin> set (py_range (epochs params)) \<longrightarrow> map_of (history (results s3)) e = map_of (history (results ?s2)) e"
    "r_params (results s3) = r_params (results ?s2)"
    "files s3 = files ?s2"
    by auto
  with v s' show ?thesis
    by (intro conjI exI[of _ new]) simp_all
qed


section \<open>The claims\<close>

lemma toy_fit_returns: "returns (fit toy_env toy_trainloader toy_validloader toy_params toy_state)"
  by code_simp



text \<open>
  Claim C8. \<^verbatim>\<open>valid_step\<close> leaves the model's parameters, the optimizer's state and the
  accumulated gradient as they were, whether it returns or raises. The only calls it makes
  are \<^verbatim>\<open>model.eval()\<close>, the iterations over the validation loader, each with its forward
  pass under \<^verbatim>\<open>torch.no_grad()\<close> and with no \<^verbatim>\<open>backward()\<close> or \<^verbatim>\<open>optimizer.step()\<close>, and at
  most one call of \<^verbatim>\<open>ConcordanceIndex\<close>; the mode of automatic differentiation is put back.
\<close>

theorem valid_step_keeps_model:
  "weights (state_of (valid_step env validloader epoch s)) = weights s
   \<and> optimizer (state_of (valid_step env validloader epoch s)) = optimizer s
   \<and> grad (state_of (valid_step env validloader epoch s)) = grad s
   \<and> grad_enabled (state_of (valid_step env validloader epoch s)) = grad_enabled s
   \<and> (\<exists>its tail. calls (state_of (valid_step env validloader epoch s))
           = calls s @ (Valid epoch, ModelEval) # map (\<lambda>it. (Valid epoch, ValidIter it)) its @ tail
         \<and> (\<forall>it\<in>set its. \<not> va_grad_enabled it)
         \<and> (tail = [] \<or> (\<exists>ei et est m. tail = [(Valid epoch, Concordance ei et est m)])))"
proof -
  from valid_step_any[of env validloader epoch s] obtain its tail where
    "calls (state_of (valid_step env validloader epoch s))
           = calls s @ (Valid epoch, ModelEval) # map (\<lambda>it. (Valid epoch, ValidIter it)) its @ tail"
    "\<forall>it\<in>set its. valid_iteration_ok env it"
    "tail = [] \<or> (\<exists>ei et est m. tail = [(Valid epoch, Concordance ei et est m)])" by blast
  then have "\<exists>its tail. calls (state_of (valid_step env validloader epoch s))
           = calls s @ (Valid epoch, ModelEval) # map (\<lambda>it. (Valid epoch, ValidIter it)) its @ tail
         \<and> (\<forall>it\<in>set its. \<not> va_grad_enabled it)
         \<and> (tail = [] \<or> (\<exists>ei et est m. tail = [(Valid epoch, Concordance ei et est m)]))"
    by (intro exI[of _ its] exI[of _ tail]) (simp add: valid_iteration_ok_def)
  with valid_step_frame[of env validloader epoch s] show ?thesis by simp
qed

lemma toy_valid_step_run:
  "returns (valid_step toy_env toy_validloader 0 toy_epoch_state)
   \<and> length (calls (state_of (valid_step toy_env toy_validloader 0 toy_epoch_state))) = 4"
  by code_simp

theorem valid_step_keeps_model_witness:
  "(\<exists>its tail. calls (state_of (valid_step toy_env toy_validloader 0 toy_epoch_state))
           = (Valid 0, ModelEval) # map (\<lambda>it. (Valid 0, ValidIter it)) its @ tail
         \<and> (\<forall>it\<in>set its. \<not> va_grad_enabled it)
         \<and> (tail = [] \<or> (\<exists>ei et est m. tail = [(Valid 0, Concordance ei et est m)])))
   \<and> weights (state_of (valid_step toy_env toy_validloader 0 toy_epoch_state)) = Fin 0
   \<and> grad (state_of (valid_step toy_env toy_validloader 0 toy_epoch_state)) = None
   \<and> returns (valid_step toy_env toy_validloader 0 toy_epoch_state)
   \<and> length (calls (state_of (valid_step toy_env toy_validloader 0 toy_epoch_state))) = 4"
  using valid_step_keeps_model[of toy_env toy_validloader 0 toy_epoch_state] toy_valid_step_run
  by (simp add: toy_epoch_state_def toy_state_def)

lemma inj_TrainIter: "inj (\<lambda>it. (Train epoch, TrainIter it))"
  by (rule injI) simp

lemma train_step_its:
  "\<exists>its. calls (state_of (train_step env trainloader epoch s))
           = calls s @ (Train epoch, ModelTrain) # (Train epoch, ZeroGrad)
               # map (\<lambda>it. (Train epoch, TrainIter it)) its
      \<and> (\<forall>it\<in>set its. train_iteration_ok env it)
      \<and> map tr_step its = grad_seq None (map (\<lambda>it. backward env (tr_backward it)) its)
      \<and> (returns (train_step env trainloader epoch s) \<longrightarrow> length its = length (fst (trainloader (rng s))))"
proof -
  from train_step_any[of env trainloader epoch s] obtain its where
    a: "calls (state_of (train_step env trainloader epoch s))
           = calls s @ (Train epoch, ModelTrain) # (Train epoch, ZeroGrad)
               # map (\<lambda>it. (Train epoch, TrainIter it)) its"
       "\<forall>it\<in>set its. train_iteration_ok env it"
       "map tr_step its = grad_seq None (map (\<lambda>it. backward env (tr_backward it)) its)"
    by blast
  have "length its = length (fst (trainloader (rng s)))" if "returns (train_step env trainloader epoch s)"
  proof -
    from that obtain v s' where r: "train_step env trainloader epoch s = Return v s'"
      by (cases "train_step env trainloader epoch s") auto
    from train_step_Return[OF r] obtain its' where
      b: "calls s' = calls s @ (Train epoch, ModelTrain) # (Train epoch, ZeroGrad)
                                   # map (\<lambda>it. (Train epoch, TrainIter it)) its'"
         "length its' = length (fst (trainloader (rng s)))" by blast
    from a(1) b(1) r have "length its' = length its"
      by (auto dest: map_eq_imp_length_eq)
    with b(2) show ?thesis by simp
  qed
  with a show ?thesis by blast
qed

text \<open>
  Claim C1. In \<^verbatim>\<open>train_step\<close>, each iteration over a training batch calls \<^verbatim>\<open>backward()\<close> on
  exactly the KL loss plus the survival loss plus the Python sum of the reconstruction
  losses of that batch, with nothing else added and no weights; this holds of every
  iteration that ran, also when a later one raises, and a step that returns has run one
  iteration for each batch of the loader.
\<close>

theorem backward_gets_sum_of_three_losses:
  "\<exists>its. calls (state_of (train_step env trainloader epoch s))
           = calls s @ (Train epoch, ModelTrain) # (Train epoch, ZeroGrad)
               # map (\<lambda>it. (Train epoch, TrainIter it)) its
      \<and> (\<forall>it\<in>set its.
            tr_backward it = tr_kl_loss it + tr_survival_loss it + py_sum (tr_reconstruction_losses it))
      \<and> (returns (train_step env trainloader epoch s) \<longrightarrow> length its = length (fst (trainloader (rng s))))"
proof -
  from train_step_its[of env trainloader epoch s] obtain its where
    "calls (state_of (train_step env trainloader epoch s))
           = calls s @ (Train epoch, ModelTrain) # (Train epoch, ZeroGrad)
               # map (\<lambda>it. (Train epoch, TrainIter it)) its"
    "\<forall>it\<in>set its. train_iteration_ok env it"
    "returns (train_step env trainloader epoch s) \<longrightarrow> length its = length (fst (trainloader (rng s)))"
    by blast
  then show ?thesis
    by (intro exI[of _ its]) (simp add: train_iteration_ok_def)
qed

lemma toy_train_step_run:
  "returns (train_step toy_env toy_trainloader 0 toy_epoch_state)
   \<and> map tr_backward (train_iters 0 (calls (state_of (train_step toy_env toy_trainloader 0 toy_epoch_state))))
       = [Fin 8, Fin 44]"
  by code_simp

theorem backward_gets_sum_of_three_losses_witness:
  "(\<exists>its. calls (state_of (train_step toy_env toy_trainloader 0 toy_epoch_state))
           = (Train 0, ModelTrain) # (Train 0, ZeroGrad) # map (\<lambda>it. (Train 0, TrainIter it)) its
      \<and> (\<forall>it\<in>set its.
            tr_backward it = tr_kl_loss it + tr_survival_loss it + py_sum (tr_reconstruction_losses it))
      \<and> length its = 2)
   \<and> map tr_backward (train_iters 0 (calls (state_of (train_step toy_env toy_trainloader 0 toy_epoch_state))))
       = [Fin 8, Fin 44]"
  using backward_gets_sum_of_three_losses[of toy_env toy_trainloader 0 toy_epoch_state] toy_train_step_run
  by (simp add: toy_epoch_state_def toy_state_def toy_trainloader_def eval_nat_numeral)

text \<open>
  Claim C2. The claim says that the gradients are reset before each batch, so that each
  \<^verbatim>\<open>optimizer.step()\<close> uses the gradient of one batch's loss. The code calls
  \<^verbatim>\<open>optimizer.zero_grad()\<close> once, before the loop over the batches (line 45), so from the
  second batch on the step reads the gradients of all batches of the epoch so far. On the
  small instance with two batches, whose losses have the gradients 8 and 44, the second
  step reads 52.
\<close>

theorem second_step_reads_accumulated_gradient:
  "map (\<lambda>it. (backward toy_env (tr_backward it), tr_step it))
     (train_iters 0 (calls (state_of (train_step toy_env toy_trainloader 0 toy_epoch_state))))
   = [(Fin 8, Some (Fin 8)), (Fin 44, Some (Fin 52))]"
  by code_simp

lemma foldl_update_keys:
  "fst ` set (foldl (\<lambda>d (k, v). AList.update k v d) d0 kvs) = fst ` set d0 \<union> fst ` set kvs"
proof (induction kvs arbitrary: d0)
  case Nil
  show ?case by simp
next
  case (Cons kv kvs)
  obtain k v where kv: "kv = (k, v)" by (cases kv)
  have "fst ` set (foldl (\<lambda>d (k, v). AList.update k v d) (AList.update k v d0) kvs)
        = fst ` set (AList.update k v d0) \<union> fst ` set kvs" by (rule Cons.IH)
  also have "\<dots> = ({k} \<union> fst ` set d0) \<union> fst ` set kvs" by (simp only: dom_update)
  finally show ?case by (simp add: kv)
qed

lemma foldl_update_distinct:
  "distinct (map fst d0) \<Longrightarrow> distinct (map fst (foldl (\<lambda>d (k, v). AList.update k v d) d0 kvs))"
  by (induction kvs arbitrary: d0) (auto simp: distinct_update)

lemma dict_of_zip_keys:
  assumes "length vs = length ks"
  shows "fst ` set (dict_of_zip ks vs) = set ks" and "distinct (map fst (dict_of_zip ks vs))"
proof -
  have "fst ` set (zip ks vs) = set (map fst (zip ks vs))" by simp
  also have "\<dots> = set ks" using assms by (simp del: set_map)
  finally show "fst ` set (dict_of_zip ks vs) = set ks"
    by (simp add: dict_of_zip_def foldl_update_keys)
  show "distinct (map fst (dict_of_zip ks vs))"
    by (simp add: dict_of_zip_def foldl_update_distinct)
qed

text \<open>
  Claim C3. After \<^verbatim>\<open>fit\<close> has returned, every epoch \<open>e\<close> with \<open>0 \<le> e < params.epochs\<close> has
  an entry in the history. Its \<^verbatim>\<open>'train'\<close> dictionary has the keys \<^verbatim>\<open>'kl_loss'\<close>,
  \<^verbatim>\<open>'reconstruction_loss'\<close> (a dictionary with one key for each input type of the
  autoencoder) and \<^verbatim>\<open>'survival_loss'\<close>; its \<^verbatim>\<open>'valid'\<close> dictionary has the same keys and
  \<^verbatim>\<open>'metric'\<close>, which holds the value \<^verbatim>\<open>ConcordanceIndex\<close> returned in that epoch. The
  steps ran in the order train 0, valid 0, train 1, valid 1, and so on.
\<close>

theorem history_has_every_epoch:
  assumes "fit env trainloader validloader params s = Return v s'" and "int e < epochs params"
  shows "\<exists>new ent d d' ei et est m. calls s' = calls s @ new
     \<and> map_of (history (results s')) e = Some ent
     \<and> map fst (train ent) = [''kl_loss'', ''reconstruction_loss'', ''survival_loss'']
     \<and> map_of (train ent) ''reconstruction_loss'' = Some (Obj d)
     \<and> fst ` set d = set (input_types_vae env) \<and> distinct (map fst d)
     \<and> map fst (valid ent) = [''kl_loss'', ''reconstruction_loss'', ''survival_loss'', ''metric'']
     \<and> map_of (valid ent) ''reconstruction_loss'' = Some (Obj d')
     \<and> fst ` set d' = set (input_types_vae env) \<and> distinct (map fst d')
     \<and> map_of (valid ent) ''metric'' = Some (Num m)
     \<and> concordance_calls e new = [(ei, et, est, m)] \<and> m = ConcordanceIndex env ei et est
     \<and> step_order new = concat (map (\<lambda>e. [Train e, Valid e]) [0..<nat (epochs params)])"
proof -
  from assms(2) have e: "e \<in> set (py_range (epochs params))" by (simp add: set_py_range)
  from fit_Return[OF assms(1)] e obtain new ent where
    c: "calls s' = calls s @ new"
    and so: "step_order new = concat (map (\<lambda>e. [Train e, Valid e]) (py_range (epochs params)))"
    and m: "map_of (history (results s')) e = Some ent"
    and ef: "epoch_facts env trainloader validloader e new ent"
    by blast
  from ef obtain m where
    ent: "ent = \<lparr>train = train_entry env (train_iters e new),
                 valid = valid_entry env (valid_iters e new) m\<rparr>"
    and cc: "concordance_calls e new =
            [(cat env (map va_event_indicator (valid_iters e new)),
              cat env (map va_event_time (valid_iters e new)),
              cat env (map va_estimate (valid_iters e new)), m)]"
    and mm: "m = ConcordanceIndex env (cat env (map va_event_indicator (valid_iters e new)))
                 (cat env (map va_event_time (valid_iters e new)))
                 (cat env (map va_estimate (valid_iters e new)))"
    unfolding epoch_facts_def by blast
  let ?n = "length (input_types_vae env)"
  let ?d = "dict_of_zip (input_types_vae env)
          [sum_at (item env) tr_reconstruction_losses (train_iters e new) m. m \<leftarrow> [0..<?n]]"
  let ?d' = "dict_of_zip (input_types_vae env)
          [sum_at (item env) va_reconstruction_losses (valid_iters e new) m. m \<leftarrow> [0..<?n]]"
  have k: "fst ` set ?d = set (input_types_vae env)" "distinct (map fst ?d)"
    "fst ` set ?d' = set (input_types_vae env)" "distinct (map fst ?d')"
    by (simp_all add: dict_of_zip_keys)
  show ?thesis
    apply (rule exI[of _ new], rule exI[of _ ent], rule exI[of _ ?d], rule exI[of _ ?d'])
    apply (rule exI[of _ "cat env (map va_event_indicator (valid_iters e new))"])
    apply (rule exI[of _ "cat env (map va_event_time (valid_iters e new))"])
    apply (rule exI[of _ "cat env (map va_estimate (valid_iters e new))"])
    apply (rule exI[of _ m])
    using c so m k cc mm
    by (simp add: ent train_entry_def valid_entry_def py_range_def)
qed



lemma toy_env_types: "input_types_vae toy_env = [''rna'']"
  by (simp add: toy_env_def)

theorem history_has_every_epoch_witness:
  "\<exists>s' ent d d' m. fit toy_env toy_trainloader toy_validloader toy_params toy_state = Return None s'
     \<and> map_of (history (results s')) 0 = Some ent
     \<and> map fst (train ent) = [''kl_loss'', ''reconstruction_loss'', ''survival_loss'']
     \<and> map_of (train ent) ''reconstruction_loss'' = Some (Obj d) \<and> fst ` set d = {''rna''}
     \<and> map fst (valid ent) = [''kl_loss'', ''reconstruction_loss'', ''survival_loss'', ''metric'']
     \<and> map_of (valid ent) ''reconstruction_loss'' = Some (Obj d') \<and> fst ` set d' = {''rna''}
     \<and> map_of (valid ent) ''metric'' = Some (Num m)
     \<and> step_order (calls s') = [Train 0, Valid 0]"
proof -
  from toy_fit_returns obtain v s' where
    r: "fit toy_env toy_trainloader toy_validloader toy_params toy_state = Return v s'"
    by (cases "fit toy_env toy_trainloader toy_validloader toy_params toy_state") auto
  have e: "int 0 < epochs toy_params" by (simp add: toy_params_def)
  from fit_Return[OF r] have v: "v = None" by (rule conjunct1)
  have ty: "set (input_types_vae toy_env) = {''rna''}" by (simp add: toy_env_types)
  have c0: "calls toy_state = []" by (simp add: toy_state_def)
  have n: "[0..<nat (epochs toy_params)] = [0]" by (simp add: toy_params_def)
  from history_has_every_epoch[OF r e] obtain new ent d d' m where
    c: "calls s' = calls toy_state @ new" and
    f: "map_of (history (results s')) 0 = Some ent"
    "map fst (train ent) = [''kl_loss'', ''reconstruction_loss'', ''survival_loss'']"
    "map_of (train ent) ''reconstruction_loss'' = Some (Obj d)" "fst ` set d = set (input_types_vae toy_env)"
    "map fst (valid ent) = [''kl_loss'', ''reconstruction_loss'', ''survival_loss'', ''metric'']"
    "map_of (valid ent) ''reconstruction_loss'' = Some (Obj d')" "fst ` set d' = set (input_types_vae toy_env)"
    "map_of (valid ent) ''metric'' = Some (Num m)" and
    so: "step_order new = concat (map (\<lambda>e. [Train e, Valid e]) [0..<nat (epochs toy_params)])"
    by (elim exE conjE) (rule that)
  have so': "step_order (calls s') = [Train 0, Valid 0]"
    using so n by (simp add: c c0)
  show ?thesis
  proof (intro exI conjI)
    show "fit toy_env toy_trainloader toy_validloader toy_params toy_state = Return None s'"
      using r v by (simp only:)
    show "fst ` set d = {''rna''}" using f(4) ty by (simp only:)
    show "fst ` set d' = {''rna''}" using f(7) ty by (simp only:)
  qed (fact f so')+
qed









lemma in_py_range: "i \<in> set (map int (py_range n)) \<longleftrightarrow> 0 \<le> i \<and> i < n"
proof
  assume "i \<in> set (map int (py_range n))"
  then show "0 \<le> i \<and> i < n" by (auto simp: py_range_def)
next
  assume a: "0 \<le> i \<and> i < n"
  then have "nat i \<in> set (py_range n)" by (simp add: py_range_def)
  then have "int (nat i) \<in> set (map int (py_range n))" by (simp del: int_nat_eq)
  with a show "i \<in> set (map int (py_range n))" by simp
qed







text \<open>
  Claim C6. A run of the script that completes has written exactly three files, in this
  order: \<^verbatim>\<open><prefix>.json\<close> by \<^verbatim>\<open>fit\<close>, holding the results dictionary (the parameters whose
  names do not start with an underscore, and a history with an entry for each epoch below
  \<^verbatim>\<open>params.epochs\<close> and for no other), then \<^verbatim>\<open><prefix>.csv\<close> by \<^verbatim>\<open>predict_to_csv\<close>, then
  \<^verbatim>\<open><prefix>.pdf\<close> by \<^verbatim>\<open>plot_results_to_pdf\<close>, where \<^verbatim>\<open><prefix>\<close> is
  \<^verbatim>\<open>params.resultsprefix\<close>.
\<close>

theorem main_writes_three_files:
  assumes "main menv cmd s = Return u s'"
  shows "\<exists>a. parse_args (py_int menv) cmd = Inr a
     \<and> files s' = files s @
           [(resultsprefix (specify_params menv (endpoint a) (shuffle a) (fold_index a)) @ ''.json'',
               JsonDump (results s')),
            (resultsprefix (specify_params menv (endpoint a) (shuffle a) (fold_index a)) @ ''.csv'',
               CsvPredictions),
            (resultsprefix (specify_params menv (endpoint a) (shuffle a) (fold_index a)) @ ''.pdf'',
               PdfPlots)]
     \<and> r_params (results s')
          = [(k, v) \<leftarrow> param_vars (specify_params menv (endpoint a) (shuffle a) (fold_index a)).
               \<not> startswith_underscore k]
     \<and> (\<forall>e. map_of (history (results s')) e \<noteq> None
            \<longleftrightarrow> int e < epochs (specify_params menv (endpoint a) (shuffle a) (fold_index a)))"
proof -
  from assms obtain a where pa: "parse_args (py_int menv) cmd = Inr a"
    by (cases "parse_args (py_int menv) cmd") (auto simp: main_def)
  define P where "P = specify_params menv (endpoint a) (shuffle a) (fold_index a)"
  obtain trd vad where sp: "main_split menv a = (trd, vad)" by (cases "main_split menv a")
  obtain trs vas where sc: "scale_impute menv trd vad = (trs, vas)" by (cases "scale_impute menv trd vad")
  obtain w r where nm: "new_model menv P (rng s) = (w, r)" by (cases "new_model menv P (rng s)")
  define s3 where "s3 = s\<lparr>calls := calls s @ [(Script, Makedirs (dirname menv (resultsprefix P))),
                                            (Script, ParseAll (p_endpoint P))],
                         weights := w, training := True, grad := None, rng := r\<rparr>"
  define trl where "trl = dataloader menv trs P (batch_size P) True"
  define val where "val = dataloader menv vas P 128 False"
  have m: "main menv cmd s =
      (case fit (torch_env menv) trl val P s3 of
                Raise e s' \<Rightarrow> Raise e s'
              | Return _ s4 \<Rightarrow>
             (case predict_to_csv (resultsprefix P @ ''.csv'') s4 of
                Raise e s' \<Rightarrow> Raise e s'
              | Return _ s5 \<Rightarrow>
                  plot_results_to_pdf (resultsprefix P @ ''.json'') (resultsprefix P @ ''.pdf'') s5))"
    using pa sp sc nm
    by (simp add: main_def Let_def P_def[symmetric] s3_def[symmetric]
          trl_def[symmetric] val_def[symmetric])
  from assms m obtain v s4 where
    f: "fit (torch_env menv) trl val P s3 = Return v s4"
    and pl: "plot_results_to_pdf (resultsprefix P @ ''.json'') (resultsprefix P @ ''.pdf'')
               (s4\<lparr>files := files s4 @ [(resultsprefix P @ ''.csv'', CsvPredictions)]\<rparr>) = Return u s'"
    by (auto simp: predict_to_csv_def split: outcome.splits)
  from pl have s': "s' = s4\<lparr>files := (files s4 @ [(resultsprefix P @ ''.csv'', CsvPredictions)])
                              @ [(resultsprefix P @ ''.pdf'', PdfPlots)]\<rparr>"
    by (auto simp: plot_results_to_pdf_def split: option.splits)
  from fit_Return[OF f] have
    h: "\<forall>e\<in>set (py_range (epochs P)). \<exists>ent. map_of (history (results s4)) e = Some ent"
    and o: "\<forall>e. e \<notin> set (py_range (epochs P)) \<longrightarrow> map_of (history (results s4)) e = None"
    and p: "r_params (results s4) = [(k, v) \<leftarrow> param_vars P. \<not> startswith_underscore k]"
    and fl: "files s4 = files s3 @ [(resultsprefix P @ ''.json'', JsonDump (results s4))]"
    by blast+
  have f3: "files s3 = files s" by (simp add: s3_def)
  have hist: "\<forall>e. map_of (history (results s4)) e \<noteq> None \<longleftrightarrow> int e < epochs P"
    using h o by (auto simp: set_py_range)
  show ?thesis
    apply (rule exI[of _ a])
    using pa s' p fl f3 hist by (simp add: P_def[symmetric])
qed



lemma toy_main_returns: "returns (main toy_main_env toy_cmd toy_state)"
  by code_simp

lemma toy_parse: "parse_args (py_int toy_main_env) toy_cmd = Inr \<lparr>endpoint = ''os'', shuffle = 0, fold_index = 3\<rparr>"
  by (simp add: parse_args_def str_choice_def int_choice_def in_py_range toy_cmd_def toy_main_env_def
        del: set_map)

theorem main_writes_three_files_witness:
  "\<exists>s'. main toy_main_env toy_cmd toy_state = Return () s'
     \<and> files s' = [(''out/run.json'', JsonDump (results s')), (''out/run.csv'', CsvPredictions),
                    (''out/run.pdf'', PdfPlots)]
     \<and> r_params (results s') = [(''lr'', ''1.0''), (''epochs'', ''1'')]
     \<and> map_of (history (results s')) 0 \<noteq> None"
proof -
  from toy_main_returns obtain u s' where
    r: "main toy_main_env toy_cmd toy_state = Return u s'"
    by (cases "main toy_main_env toy_cmd toy_state") auto
  have P: "specify_params toy_main_env ''os'' 0 3 = toy_params\<lparr>p_endpoint := ''os'', p_shuffle := 0, p_fold := 3\<rparr>"
    by (simp add: toy_main_env_def)
  from main_writes_three_files[OF r] toy_parse r show ?thesis
    by (simp add: P toy_params_def toy_state_def)
qed















end
